theory Spec2Isabelle
  imports Main "HOL-Library.AList"
begin

section \<open>The partition table module \<open>foreman_ptable.py\<close>\<close>

text \<open>
  The module has two functions, \<open>get_location_ids\<close> and \<open>ensure\<close>. Both talk to a
  remote Foreman server through the client object \<open>theforeman\<close> and end the run with
  \<open>module.fail_json\<close> when something goes wrong. The embedding makes this explicit:
  \<^item> values exchanged with the client (JSON) are a datatype \<open>pval\<close>, a Python dict is an
    association list read with \<open>dict_get\<close> (Python's \<open>d.get(k)\<close>, \<open>None\<close> on a miss);
  \<^item> the client is a parameter, a record of its six methods over an abstract remote state;
    a raised \<open>ForemanError\<close> is the value \<open>Inl e.message\<close>;
  \<^item> \<open>module.fail_json(msg=...)\<close> ends the run: the run's result is
    \<open>Inl (FailJson msg)\<close>; an exception that nothing catches ends it with \<open>Inl (Uncaught ...)\<close>;
  \<^item> every call to the client, and the \<open>open\<close> of the template file, is recorded in a
    trace of events, in the order in which the code issues them.
\<close>

subsection \<open>Python values\<close>

datatype pval =
    PNone
  | PStr string
  | PInt int
  | PList "pval list"
  | PDict "(string \<times> pval) list"

type_synonym pdict = "(string \<times> pval) list"

text \<open>\<open>d.get(k)\<close>: the value stored under \<open>k\<close>, \<open>None\<close> when the key is missing.\<close>

definition dict_get :: "pdict \<Rightarrow> string \<Rightarrow> pval" where
  "dict_get d k = (case map_of d k of None \<Rightarrow> PNone | Some v \<Rightarrow> v)"

text \<open>
  Python truth values as the module tests them: a string parameter that is \<open>None\<close> or
  empty is false, a list parameter that is \<open>None\<close> or empty is false, and a client answer
  that is \<open>None\<close> or an empty dict is false.
\<close>

definition truthy_str :: "string option \<Rightarrow> bool" where
  "truthy_str x = (case x of None \<Rightarrow> False | Some v \<Rightarrow> v \<noteq> [])"

definition truthy_list :: "'a list option \<Rightarrow> bool" where
  "truthy_list x = (case x of None \<Rightarrow> False | Some v \<Rightarrow> v \<noteq> [])"

definition truthy_dict :: "pdict option \<Rightarrow> bool" where
  "truthy_dict x = (case x of None \<Rightarrow> False | Some v \<Rightarrow> v \<noteq> [])"

text \<open>An optional string parameter as a Python value.\<close>

definition opt_str :: "string option \<Rightarrow> pval" where
  "opt_str x = (case x of None \<Rightarrow> PNone | Some v \<Rightarrow> PStr v)"

subsection \<open>Module parameters\<close>

text \<open>The \<open>argument_spec\<close> of \<open>main\<close>, without the connection parameters.\<close>

datatype desired_state = Present | Absent

record params =
  name :: string
  layout :: "string option"
  template_file :: "string option"
  os_family :: "string option"
  locations :: "string list option"
  state :: desired_state

subsection \<open>The client and the trace of calls\<close>

text \<open>
  The python-foreman client is not part of the module, so it is a parameter. The three
  read calls answer from the remote state and leave it as it is; the three writing calls
  return the remote state after the call, also when they raise.
\<close>

record 'st foreman =
  search_partition_table :: "pdict \<Rightarrow> 'st \<Rightarrow> string + pdict option"
  search_location :: "pdict \<Rightarrow> 'st \<Rightarrow> string + pdict option"
  get_partition_table :: "pval \<Rightarrow> 'st \<Rightarrow> string + pdict"
  create_partition_table :: "pdict \<Rightarrow> 'st \<Rightarrow> (string + pdict) \<times> 'st"
  delete_partition_table :: "pval \<Rightarrow> 'st \<Rightarrow> (string + pdict) \<times> 'st"
  update_partition_table :: "pval \<Rightarrow> pdict \<Rightarrow> 'st \<Rightarrow> (string + pdict) \<times> 'st"

datatype event =
    SearchPartitionTable pdict
  | SearchLocation pdict
  | OpenFile string
  | GetPartitionTable pval
  | CreatePartitionTable pdict
  | DeletePartitionTable pval
  | UpdatePartitionTable pval pdict

text \<open>
  How a run ends without a result: \<open>module.fail_json\<close> with its message, or a Python
  exception that the module does not catch.
\<close>

datatype failure = FailJson string | Uncaught string

text \<open>
  \<open>module.fail_json\<close> is \<open>AnsibleModule.fail_json(self, **kwargs)\<close> in the Ansible that
  the module is written for (\<open>version_added: "2.0"\<close>): it takes keyword arguments only.
  The calls of \<open>ensure\<close> pass \<open>msg=...\<close>. The two calls of \<open>get_location_ids\<close>
  (lines 98 and 101) pass the formatted message as a positional argument: Python raises
  \<open>TypeError\<close> at the call, \<open>except ForemanError\<close> does not catch it, and the message is
  lost.
\<close>

definition fail_json_positional :: "string \<Rightarrow> failure" where
  "fail_json_positional message =
     Uncaught ''TypeError: fail_json() takes exactly 1 argument (2 given)''"

subsection \<open>\<open>get_location_ids\<close>\<close>

text \<open>
  The loop over \<open>locations\<close> with its accumulator \<open>result\<close>. A lookup that raises
  (line 101) and a lookup that answers \<open>None\<close> or an empty dict (line 98) both end the run
  in the positional call of \<open>module.fail_json\<close>.
\<close>

fun get_location_ids ::
  "'st foreman \<Rightarrow> 'st \<Rightarrow> string list \<Rightarrow> pval list \<Rightarrow> (failure + pval list) \<times> event list"
where
  "get_location_ids theforeman s [] result = (Inr result, [])"
| "get_location_ids theforeman s (l # ls) result =
     (case search_location theforeman [(''name'', PStr l)] s of
        Inl e \<Rightarrow>
          (Inl (fail_json_positional (''Could not get Locations: '' @ e)),
           [SearchLocation [(''name'', PStr l)]])
      | Inr location \<Rightarrow>
          (case location of
             None \<Rightarrow>
               (Inl (fail_json_positional (''Could not find Location '' @ l)),
                [SearchLocation [(''name'', PStr l)]])
           | Some d \<Rightarrow>
               if d = [] then
                 (Inl (fail_json_positional (''Could not find Location '' @ l)),
                  [SearchLocation [(''name'', PStr l)]])
               else
                 (case get_location_ids theforeman s ls (result @ [dict_get d ''id'']) of
                    (r, tr) \<Rightarrow> (r, SearchLocation [(''name'', PStr l)] # tr))))"

subsection \<open>\<open>ensure\<close>\<close>

text \<open>
  Lines 120 and 121: \<open>location_ids\<close> enters the data only when \<open>locations\<close> is a
  non-empty list.
\<close>

definition location_data ::
  "'st foreman \<Rightarrow> 'st \<Rightarrow> params \<Rightarrow> pdict \<Rightarrow> (failure + pdict) \<times> event list"
where
  "location_data theforeman s p data =
     (case locations p of
        None \<Rightarrow> (Inr data, [])
      | Some ls \<Rightarrow>
          if ls = [] then (Inr data, [])
          else
            (case get_location_ids theforeman s ls [] of
               (Inl f, tr) \<Rightarrow> (Inl f, tr)
             | (Inr ids, tr) \<Rightarrow> (Inr (AList.update ''location_ids'' (PList ids) data), tr)))"

text \<open>
  Lines 123 to 135: the check of \<open>layout\<close> against \<open>template_file\<close>, the layout taken
  from the parameter or read from the file, and \<open>os_family\<close>. The file system is the
  function \<open>fs\<close>: the contents of a path, or the message of the \<open>IOError\<close>.
\<close>

definition layout_data ::
  "(string \<Rightarrow> string + string) \<Rightarrow> params \<Rightarrow> pdict \<Rightarrow> (failure + pdict) \<times> event list"
where
  "layout_data fs p data =
     (if \<not> truthy_str (layout p) \<and> \<not> truthy_str (template_file p) then
        (Inl (FailJson ''Either layout or template_file must be defined''), [])
      else if truthy_str (layout p) \<and> truthy_str (template_file p) then
        (Inl (FailJson ''Only one of either layout or template_file must be defined''), [])
      else if truthy_str (layout p) then
        (Inr (AList.update ''os_family'' (opt_str (os_family p))
               (AList.update ''layout'' (opt_str (layout p)) data)), [])
      else
        (case template_file p of
           None \<Rightarrow> (Inl (Uncaught ''TypeError''), [])
         | Some path \<Rightarrow>
             (case fs path of
                Inl e \<Rightarrow>
                  (Inl (FailJson (''Could not open file '' @ path @ '': '' @ e)),
                   [OpenFile path])
              | Inr contents \<Rightarrow>
                  (Inr (AList.update ''os_family'' (opt_str (os_family p))
                         (AList.update ''layout'' (PStr contents) data)),
                   [OpenFile path]))))"

text \<open>
  Lines 137 to 165: the decision. \<open>ptable\<close> is the answer of the search by name and
  \<open>data\<close> the finished data.
\<close>

definition ensure_action ::
  "'st foreman \<Rightarrow> params \<Rightarrow> pdict option \<Rightarrow> pdict \<Rightarrow> 'st \<Rightarrow>
     (failure + bool \<times> pdict option) \<times> event list \<times> 'st"
where
  "ensure_action theforeman p ptable data s =
     (if \<not> truthy_dict ptable \<and> state p = Present then
        (case create_partition_table theforeman data s of
           (Inl e, s') \<Rightarrow>
             (Inl (FailJson (''Could not create partition table: '' @ e)),
              [CreatePartitionTable data], s')
         | (Inr r, s') \<Rightarrow> (Inr (True, Some r), [CreatePartitionTable data], s'))
      else if truthy_dict ptable \<and> state p = Absent then
        (case ptable of
           None \<Rightarrow> (Inl (Uncaught ''AttributeError''), [], s)
         | Some d \<Rightarrow>
             (case delete_partition_table theforeman (dict_get d ''id'') s of
                (Inl e, s') \<Rightarrow>
                  (Inl (FailJson (''Could not delete partition table: '' @ e)),
                   [DeletePartitionTable (dict_get d ''id'')], s')
              | (Inr r, s') \<Rightarrow>
                  (Inr (True, Some r), [DeletePartitionTable (dict_get d ''id'')], s')))
      else if truthy_dict ptable \<and> state p = Present then
        (case ptable of
           None \<Rightarrow> (Inl (Uncaught ''AttributeError''), [], s)
         | Some d \<Rightarrow>
             (case get_partition_table theforeman (dict_get d ''id'') s of
                Inl e \<Rightarrow>
                  (Inl (FailJson (''Could not get partition table to update: '' @ e)),
                   [GetPartitionTable (dict_get d ''id'')], s)
              | Inr g \<Rightarrow>
                  if dict_get g ''layout'' = opt_str (layout p)
                     \<or> dict_get g ''layout'' = dict_get data ''layout''
                  then (Inr (False, Some g), [GetPartitionTable (dict_get d ''id'')], s)
                  else
                    (case update_partition_table theforeman (dict_get g ''id'') data s of
                       (Inl e, s') \<Rightarrow>
                         (Inl (FailJson (''Could not update partition table: '' @ e)),
                          [GetPartitionTable (dict_get d ''id''),
                           UpdatePartitionTable (dict_get g ''id'') data], s')
                     | (Inr r, s') \<Rightarrow>
                         (Inr (True, Some r),
                          [GetPartitionTable (dict_get d ''id''),
                           UpdatePartitionTable (dict_get g ''id'') data], s'))))
      else (Inr (False, ptable), [], s))"

text \<open>
  The whole of \<open>ensure\<close>: the search by name (line 116) comes first, then the locations,
  then the layout, then the decision. The result is the pair \<open>(changed, ptable)\<close> or the
  failure, with the trace of the run and the remote state after it.
\<close>

definition ensure ::
  "'st foreman \<Rightarrow> (string \<Rightarrow> string + string) \<Rightarrow> params \<Rightarrow> 'st \<Rightarrow>
     (failure + bool \<times> pdict option) \<times> event list \<times> 'st"
where
  "ensure theforeman fs p s =
     (case search_partition_table theforeman [(''name'', PStr (name p))] s of
        Inl e \<Rightarrow>
          (Inl (FailJson (''Could not get partition table: '' @ e)),
           [SearchPartitionTable [(''name'', PStr (name p))]], s)
      | Inr ptable \<Rightarrow>
          (case location_data theforeman s p [(''name'', PStr (name p))] of
             (Inl f, t2) \<Rightarrow> (Inl f, SearchPartitionTable [(''name'', PStr (name p))] # t2, s)
           | (Inr data2, t2) \<Rightarrow>
               (case layout_data fs p data2 of
                  (Inl f, t3) \<Rightarrow>
                    (Inl f, SearchPartitionTable [(''name'', PStr (name p))] # t2 @ t3, s)
                | (Inr data3, t3) \<Rightarrow>
                    (case ensure_action theforeman p ptable data3 s of
                       (r, t4, s') \<Rightarrow>
                         (r, SearchPartitionTable [(''name'', PStr (name p))] # t2 @ t3 @ t4,
                          s')))))"

subsection \<open>Reading a trace\<close>

text \<open>The calls that change the remote state.\<close>

fun mutating :: "event \<Rightarrow> bool" where
  "mutating (CreatePartitionTable d) = True"
| "mutating (DeletePartitionTable i) = True"
| "mutating (UpdatePartitionTable i d) = True"
| "mutating e = False"

text \<open>
  The four stages of a run: the search by name, the location lookups, the read of the
  template file, and the fetch, create, update or delete of the decision.
\<close>

fun phase :: "event \<Rightarrow> nat" where
  "phase (SearchPartitionTable q) = 0"
| "phase (SearchLocation q) = 1"
| "phase (OpenFile path) = 2"
| "phase e = 3"

text \<open>The data handed to a create or an update call.\<close>

fun payload_of :: "event \<Rightarrow> pdict option" where
  "payload_of (CreatePartitionTable d) = Some d"
| "payload_of (UpdatePartitionTable i d) = Some d"
| "payload_of e = None"

definition payloads :: "event list \<Rightarrow> pdict list" where
  "payloads tr = List.map_filter payload_of tr"

fun is_update :: "event \<Rightarrow> bool" where
  "is_update (UpdatePartitionTable i d) = True"
| "is_update e = False"

text \<open>The data of line 113, which is also the query of the search by name.\<close>

abbreviation name_data :: "params \<Rightarrow> pdict" where
  "name_data p \<equiv> [(''name'', PStr (name p))]"

text \<open>
  The names in \<open>locations\<close> (none when the parameter is omitted) and the lookups that
  \<open>get_location_ids\<close> issues when every name resolves.
\<close>

definition location_names :: "params \<Rightarrow> string list" where
  "location_names p = (case locations p of None \<Rightarrow> [] | Some ls \<Rightarrow> ls)"

definition location_lookups :: "params \<Rightarrow> event list" where
  "location_lookups p = map (\<lambda>l. SearchLocation [(''name'', PStr l)]) (location_names p)"

text \<open>A location name resolves when its lookup answers a non-empty record.\<close>

definition resolves :: "'st foreman \<Rightarrow> 'st \<Rightarrow> string \<Rightarrow> bool" where
  "resolves theforeman s l =
     (case search_location theforeman [(''name'', PStr l)] s of
        Inl e \<Rightarrow> False
      | Inr location \<Rightarrow> truthy_dict location)"

text \<open>The id that the lookup of a location name answers.\<close>

definition location_id :: "'st foreman \<Rightarrow> 'st \<Rightarrow> string \<Rightarrow> pval" where
  "location_id theforeman s l =
     (case search_location theforeman [(''name'', PStr l)] s of
        Inl e \<Rightarrow> PNone
      | Inr location \<Rightarrow> (case location of None \<Rightarrow> PNone | Some d \<Rightarrow> dict_get d ''id''))"

text \<open>
  A descriptor is valid when exactly one of \<open>layout\<close> and \<open>template_file\<close> is given
  (as a non-empty string, which is what the module tests).
\<close>

definition valid :: "params \<Rightarrow> bool" where
  "valid p = (truthy_str (layout p) \<noteq> truthy_str (template_file p))"

text \<open>The read of the template file, when the layout comes from it.\<close>

definition layout_reads :: "params \<Rightarrow> event list" where
  "layout_reads p =
     (if truthy_str (layout p) then []
      else (case template_file p of None \<Rightarrow> [] | Some path \<Rightarrow> [OpenFile path]))"

text \<open>
  The calls of a run up to the decision, when none of them fails: the search by name, the
  location lookups, the read of the template file.
\<close>

definition prelude :: "params \<Rightarrow> event list" where
  "prelude p = SearchPartitionTable (name_data p) # location_lookups p @ layout_reads p"

text \<open>
  The data \<open>{name, location_ids, layout, os_family}\<close> for the resolved layout \<open>L\<close>, with
  \<open>location_ids\<close> only for a non-empty \<open>locations\<close>.
\<close>

definition desired_data :: "'st foreman \<Rightarrow> 'st \<Rightarrow> params \<Rightarrow> string \<Rightarrow> pdict" where
  "desired_data theforeman s p L =
     (''name'', PStr (name p)) #
     (if truthy_list (locations p)
      then [(''location_ids'', PList (map (location_id theforeman s) (location_names p)))]
      else []) @
     [(''layout'', PStr L), (''os_family'', opt_str (os_family p))]"

text \<open>
  The resolved desired layout of a descriptor: the literal \<open>layout\<close> when it is given,
  the contents of \<open>template_file\<close> otherwise; \<open>None\<close> when there is neither or the
  file cannot be read.
\<close>

definition desired_layout :: "(string \<Rightarrow> string + string) \<Rightarrow> params \<Rightarrow> string option" where
  "desired_layout fs p =
     (if truthy_str (layout p) then layout p
      else
        (case template_file p of
           None \<Rightarrow> None
         | Some path \<Rightarrow> (case fs path of Inl e \<Rightarrow> None | Inr contents \<Rightarrow> Some contents)))"

text \<open>
  What a run may expect of the server after a call that changed it. After a create or an
  update with \<open>data\<close>, the search \<open>q\<close> finds a record and its full record carries the
  layout of \<open>data\<close>; after a delete the search \<open>q\<close> finds nothing.
\<close>

definition stored :: "'st foreman \<Rightarrow> pdict \<Rightarrow> pdict \<Rightarrow> 'st \<Rightarrow> bool" where
  "stored theforeman q data s =
     (case search_partition_table theforeman q s of
        Inl e \<Rightarrow> False
      | Inr None \<Rightarrow> False
      | Inr (Some d) \<Rightarrow>
          d \<noteq> [] \<and>
          (case get_partition_table theforeman (dict_get d ''id'') s of
             Inl e \<Rightarrow> False
           | Inr g \<Rightarrow> dict_get g ''layout'' = dict_get data ''layout''))"

definition removed :: "'st foreman \<Rightarrow> pdict \<Rightarrow> 'st \<Rightarrow> bool" where
  "removed theforeman q s =
     (case search_partition_table theforeman q s of
        Inl e \<Rightarrow> False
      | Inr r \<Rightarrow> \<not> truthy_dict r)"

fun applied :: "'st foreman \<Rightarrow> pdict \<Rightarrow> 'st \<Rightarrow> event \<Rightarrow> bool" where
  "applied theforeman q s (CreatePartitionTable data) = stored theforeman q data s"
| "applied theforeman q s (UpdatePartitionTable i data) = stored theforeman q data s"
| "applied theforeman q s (DeletePartitionTable i) = removed theforeman q s"
| "applied theforeman q s e = True"

subsection \<open>A client to run the module on\<close>

text \<open>
  Modelled from the spec: the python-foreman client is not under src/. This instance
  follows the collaborator interface of the specification (its section 6) over a store held
  in memory: records are found by their \<open>name\<close> and fetched by their \<open>id\<close>, a create
  appends the data under a fresh id, an update overwrites the entries of the record that
  the data names, a delete drops the record. It serves to run \<open>ensure\<close> on concrete
  inputs; the general theorems are about every client.
\<close>

record store =
  partition_tables :: "pdict list"
  location_records :: "pdict list"
  next_id :: int

definition by_name :: "pdict \<Rightarrow> pdict \<Rightarrow> bool" where
  "by_name q r = (dict_get r ''name'' = dict_get q ''name'')"

definition by_id :: "pval \<Rightarrow> pdict \<Rightarrow> bool" where
  "by_id i r = (dict_get r ''id'' = i)"

definition mem_create :: "pdict \<Rightarrow> store \<Rightarrow> (string + pdict) \<times> store" where
  "mem_create data st =
     (Inr (AList.update ''id'' (PInt (next_id st)) data),
      st\<lparr>partition_tables :=
           partition_tables st @ [AList.update ''id'' (PInt (next_id st)) data],
         next_id := next_id st + 1\<rparr>)"

definition mem_delete :: "pval \<Rightarrow> store \<Rightarrow> (string + pdict) \<times> store" where
  "mem_delete i st =
     (case find (by_id i) (partition_tables st) of
        None \<Rightarrow> (Inl ''Resource not found'', st)
      | Some r \<Rightarrow>
          (Inr r, st\<lparr>partition_tables := filter (\<lambda>x. \<not> by_id i x) (partition_tables st)\<rparr>))"

definition mem_update :: "pval \<Rightarrow> pdict \<Rightarrow> store \<Rightarrow> (string + pdict) \<times> store" where
  "mem_update i data st =
     (case find (by_id i) (partition_tables st) of
        None \<Rightarrow> (Inl ''Resource not found'', st)
      | Some r \<Rightarrow>
          (Inr (AList.merge r data),
           st\<lparr>partition_tables :=
                map (\<lambda>x. if by_id i x then AList.merge r data else x) (partition_tables st)\<rparr>))"

definition mem_foreman :: "store foreman" where
  "mem_foreman =
     \<lparr>search_partition_table = (\<lambda>q st. Inr (find (by_name q) (partition_tables st))),
      search_location = (\<lambda>q st. Inr (find (by_name q) (location_records st))),
      get_partition_table =
        (\<lambda>i st. case find (by_id i) (partition_tables st) of
                   None \<Rightarrow> Inl ''Resource not found''
                 | Some r \<Rightarrow> Inr r),
      create_partition_table = mem_create,
      delete_partition_table = mem_delete,
      update_partition_table = mem_update\<rparr>"

subsection \<open>Concrete inputs\<close>

text \<open>
  A file system with one template file, a store with one location and the given partition
  tables, and the descriptor of the module's own example.
\<close>

definition example_fs :: "string \<Rightarrow> string + string" where
  "example_fs path =
     (if path = ''ptable.txt'' then Inr ''zfs on root'' else Inl ''No such file or directory'')"

definition store_with :: "pdict list \<Rightarrow> store" where
  "store_with rs =
     \<lparr>partition_tables = rs,
      location_records = [[(''id'', PInt 7), (''name'', PStr ''Dulles'')]],
      next_id = 2\<rparr>"

definition stored_freebsd :: "pval \<Rightarrow> pdict" where
  "stored_freebsd v =
     [(''id'', PInt 1), (''name'', PStr ''FreeBSD''), (''layout'', v),
      (''os_family'', PStr ''Solaris'')]"

definition freebsd :: params where
  "freebsd =
     \<lparr>name = ''FreeBSD'', layout = Some ''zfs on root'', template_file = None,
      os_family = Some ''FreeBSD'', locations = None, state = Present\<rparr>"

definition freebsd_from_file :: params where
  "freebsd_from_file = freebsd\<lparr>layout := None, template_file := Some ''ptable.txt''\<rparr>"

definition freebsd_absent :: params where
  "freebsd_absent =
     \<lparr>name = ''FreeBSD'', layout = None, template_file = None,
      os_family = None, locations = None, state = Absent\<rparr>"

definition freebsd_unspecified :: params where
  "freebsd_unspecified = freebsd\<lparr>layout := None, locations := Some [''Dulles'']\<rparr>"

definition freebsd_blank :: params where
  "freebsd_blank = freebsd\<lparr>layout := Some [], template_file := Some ''ptable.txt''\<rparr>"

definition freebsd_located :: params where
  "freebsd_located = freebsd_from_file\<lparr>locations := Some [''Dulles'']\<rparr>"

definition freebsd_nowhere :: params where
  "freebsd_nowhere = freebsd\<lparr>locations := Some [''Dulles'', ''Nowhere'']\<rparr>"

definition freebsd_removed :: params where
  "freebsd_removed = freebsd\<lparr>state := Absent\<rparr>"

definition freebsd_missing_file :: params where
  "freebsd_missing_file = freebsd\<lparr>layout := None, template_file := Some ''missing.txt''\<rparr>"

section \<open>Properties of the parts of a run\<close>

lemma get_location_ids_trace:
  "get_location_ids c s ls acc = (r, tr) \<Longrightarrow>
     \<exists>k. tr = map (\<lambda>l. SearchLocation [(''name'', PStr l)]) (take k ls)"
proof (induction ls arbitrary: acc r tr)
  case Nil
  then show ?case by simp
next
  case (Cons l ls)
  show ?case
  proof (cases "resolves c s l")
    case False
    with Cons.prems have "tr = [SearchLocation [(''name'', PStr l)]]"
      by (auto simp: resolves_def truthy_dict_def split: sum.splits option.splits if_splits)
    then have "tr = map (\<lambda>l. SearchLocation [(''name'', PStr l)]) (take (Suc 0) (l # ls))"
      by simp
    then show ?thesis by blast
  next
    case True
    then obtain d where d: "search_location c [(''name'', PStr l)] s = Inr (Some d)" "d \<noteq> []"
      by (auto simp: resolves_def truthy_dict_def split: sum.splits option.splits)
    obtain r' tr' where rec: "get_location_ids c s ls (acc @ [dict_get d ''id'']) = (r', tr')"
      by (cases "get_location_ids c s ls (acc @ [dict_get d ''id''])") auto
    from Cons.IH [OF rec] obtain k
      where k: "tr' = map (\<lambda>l. SearchLocation [(''name'', PStr l)]) (take k ls)" by blast
    from Cons.prems d rec have "tr = SearchLocation [(''name'', PStr l)] # tr'" by simp
    with k have "tr = map (\<lambda>l. SearchLocation [(''name'', PStr l)]) (take (Suc k) (l # ls))"
      by simp
    then show ?thesis by blast
  qed
qed

lemma get_location_ids_same:
  "\<forall>q. search_location c q s' = search_location c q s \<Longrightarrow>
     get_location_ids c s' ls acc = get_location_ids c s ls acc"
  by (induction ls arbitrary: acc) (simp_all split: sum.splits option.splits)

lemma location_data_same:
  "\<forall>q. search_location c q s' = search_location c q s \<Longrightarrow>
     location_data c s' p d = location_data c s p d"
proof -
  assume "\<forall>q. search_location c q s' = search_location c q s"
  then have "\<And>ls. get_location_ids c s' ls [] = get_location_ids c s ls []"
    by (rule get_location_ids_same)
  then show ?thesis by (simp add: location_data_def split: option.splits)
qed

lemma location_data_trace:
  assumes "location_data c s p d = (r, tr)"
  shows "\<exists>k. tr = take k (location_lookups p)"
proof (cases "locations p")
  case None
  with assms show ?thesis
    by (simp add: location_data_def location_lookups_def location_names_def)
next
  case (Some ls)
  show ?thesis
  proof (cases "ls = []")
    case True
    with Some assms show ?thesis
      by (simp add: location_data_def location_lookups_def location_names_def)
  next
    case False
    obtain r' tr' where g: "get_location_ids c s ls [] = (r', tr')"
      by (cases "get_location_ids c s ls []") auto
    from get_location_ids_trace [OF g] obtain k
      where "tr' = map (\<lambda>l. SearchLocation [(''name'', PStr l)]) (take k ls)" by blast
    moreover from assms Some False g have "tr = tr'"
      by (auto simp: location_data_def split: sum.splits)
    ultimately show ?thesis using Some
      by (auto simp: location_lookups_def location_names_def take_map)
  qed
qed

lemma location_data_phase:
  assumes "location_data c s p d = (r, tr)"
  shows "\<forall>e\<in>set tr. phase e = 1"
proof -
  from location_data_trace [OF assms] obtain k where "tr = take k (location_lookups p)" by blast
  then have "set tr \<subseteq> set (location_lookups p)" by (simp add: set_take_subset)
  then show ?thesis by (auto simp: location_lookups_def)
qed

lemma location_data_payload:
  assumes "location_data c s p d = (Inr d', tr)"
  shows "if truthy_list (locations p)
         then \<exists>ids. d' = AList.update ''location_ids'' (PList ids) d
         else d' = d \<and> tr = []"
  using assms
  by (auto simp: location_data_def truthy_list_def split: option.splits if_splits sum.splits prod.splits)

lemma layout_data_trace:
  assumes "layout_data fs p d = (r, tr)"
  shows "tr = [] \<or> (\<exists>path. template_file p = Some path \<and> tr = [OpenFile path])"
  using assms
  by (auto simp: layout_data_def split: if_splits option.splits sum.splits)

lemma layout_data_phase:
  assumes "layout_data fs p d = (r, tr)"
  shows "\<forall>e\<in>set tr. phase e = 2"
  using layout_data_trace [OF assms] by auto

lemma layout_data_payload:
  assumes "layout_data fs p d = (Inr d', tr)"
  shows "\<exists>L. desired_layout fs p = Some L
           \<and> d' = AList.update ''os_family'' (opt_str (os_family p))
                    (AList.update ''layout'' (PStr L) d)
           \<and> truthy_str (layout p) \<noteq> truthy_str (template_file p)"
  using assms
  by (auto simp: layout_data_def desired_layout_def truthy_str_def opt_str_def
           split: if_splits option.splits sum.splits)

lemma layout_data_invalid:
  assumes "truthy_str (layout p) = truthy_str (template_file p)"
  shows "layout_data fs p d =
           (Inl (FailJson (if truthy_str (layout p)
                           then ''Only one of either layout or template_file must be defined''
                           else ''Either layout or template_file must be defined'')), [])"
  using assms by (simp add: layout_data_def)

lemma ensure_action_cases:
  assumes "ensure_action c p pt data s = (r, tr, s')"
  shows "(tr = [] \<and> s' = s \<and> r = Inr (False, pt) \<and> \<not> truthy_dict pt \<and> state p = Absent)
       \<or> (tr = [CreatePartitionTable data] \<and> \<not> truthy_dict pt \<and> state p = Present
            \<and> (\<exists>x. create_partition_table c data s = (x, s')
                 \<and> r = (case x of Inl e \<Rightarrow> Inl (FailJson (''Could not create partition table: '' @ e))
                                | Inr v \<Rightarrow> Inr (True, Some v))))
       \<or> (\<exists>d. pt = Some d \<and> d \<noteq> [] \<and> state p = Absent
            \<and> tr = [DeletePartitionTable (dict_get d ''id'')]
            \<and> (\<exists>x. delete_partition_table c (dict_get d ''id'') s = (x, s')
                 \<and> r = (case x of Inl e \<Rightarrow> Inl (FailJson (''Could not delete partition table: '' @ e))
                                | Inr v \<Rightarrow> Inr (True, Some v))))
       \<or> (\<exists>d e. pt = Some d \<and> d \<noteq> [] \<and> state p = Present
            \<and> get_partition_table c (dict_get d ''id'') s = Inl e
            \<and> tr = [GetPartitionTable (dict_get d ''id'')] \<and> s' = s
            \<and> r = Inl (FailJson (''Could not get partition table to update: '' @ e)))
       \<or> (\<exists>d g. pt = Some d \<and> d \<noteq> [] \<and> state p = Present
            \<and> get_partition_table c (dict_get d ''id'') s = Inr g
            \<and> (dict_get g ''layout'' = opt_str (layout p)
                 \<or> dict_get g ''layout'' = dict_get data ''layout'')
            \<and> tr = [GetPartitionTable (dict_get d ''id'')] \<and> s' = s
            \<and> r = Inr (False, Some g))
       \<or> (\<exists>d g. pt = Some d \<and> d \<noteq> [] \<and> state p = Present
            \<and> get_partition_table c (dict_get d ''id'') s = Inr g
            \<and> dict_get g ''layout'' \<noteq> opt_str (layout p)
            \<and> dict_get g ''layout'' \<noteq> dict_get data ''layout''
            \<and> tr = [GetPartitionTable (dict_get d ''id''),
                     UpdatePartitionTable (dict_get g ''id'') data]
            \<and> (\<exists>x. update_partition_table c (dict_get g ''id'') data s = (x, s')
                 \<and> r = (case x of Inl e \<Rightarrow> Inl (FailJson (''Could not update partition table: '' @ e))
                                | Inr v \<Rightarrow> Inr (True, Some v))))"
proof (cases "state p")
  case Present
  show ?thesis
  proof (cases "truthy_dict pt")
    case False
    with Present assms show ?thesis
      by (auto simp: ensure_action_def split: prod.splits sum.splits)
  next
    case True
    then obtain d where d: "pt = Some d" "d \<noteq> []"
      by (auto simp: truthy_dict_def split: option.splits)
    with Present assms show ?thesis
      by (auto simp: ensure_action_def truthy_dict_def split: prod.splits sum.splits if_splits)
  qed
next
  case Absent
  show ?thesis
  proof (cases "truthy_dict pt")
    case False
    with Absent assms show ?thesis
      by (auto simp: ensure_action_def split: prod.splits sum.splits)
  next
    case True
    then obtain d where d: "pt = Some d" "d \<noteq> []"
      by (auto simp: truthy_dict_def split: option.splits)
    with Absent assms show ?thesis
      by (auto simp: ensure_action_def truthy_dict_def split: prod.splits sum.splits if_splits)
  qed
qed

lemma ensure_run:
  assumes "search_partition_table c [(''name'', PStr (name p))] s = Inr pt"
    and "location_data c s p [(''name'', PStr (name p))] = (Inr d2, t2)"
    and "layout_data fs p d2 = (Inr d3, t3)"
    and "ensure_action c p pt d3 s = (r, t4, s')"
  shows "ensure c fs p s =
           (r, SearchPartitionTable [(''name'', PStr (name p))] # t2 @ t3 @ t4, s')"
  using assms by (simp add: ensure_def)

lemma ensure_cases:
  assumes "ensure c fs p s = (r, tr, s')"
  shows "(\<exists>e. search_partition_table c [(''name'', PStr (name p))] s = Inl e
            \<and> r = Inl (FailJson (''Could not get partition table: '' @ e))
            \<and> tr = [SearchPartitionTable [(''name'', PStr (name p))]] \<and> s' = s)
       \<or> (\<exists>pt f t2. search_partition_table c [(''name'', PStr (name p))] s = Inr pt
            \<and> location_data c s p [(''name'', PStr (name p))] = (Inl f, t2)
            \<and> r = Inl f \<and> tr = SearchPartitionTable [(''name'', PStr (name p))] # t2 \<and> s' = s)
       \<or> (\<exists>pt d2 t2 f t3. search_partition_table c [(''name'', PStr (name p))] s = Inr pt
            \<and> location_data c s p [(''name'', PStr (name p))] = (Inr d2, t2)
            \<and> layout_data fs p d2 = (Inl f, t3)
            \<and> r = Inl f \<and> tr = SearchPartitionTable [(''name'', PStr (name p))] # t2 @ t3
            \<and> s' = s)
       \<or> (\<exists>pt d2 t2 d3 t3 t4. search_partition_table c [(''name'', PStr (name p))] s = Inr pt
            \<and> location_data c s p [(''name'', PStr (name p))] = (Inr d2, t2)
            \<and> layout_data fs p d2 = (Inr d3, t3)
            \<and> ensure_action c p pt d3 s = (r, t4, s')
            \<and> tr = SearchPartitionTable [(''name'', PStr (name p))] # t2 @ t3 @ t4)"
  using assms
  by (auto simp: ensure_def split: sum.splits prod.splits)

lemma get_location_ids_resolved:
  "\<forall>l\<in>set ls. resolves c s l \<Longrightarrow>
     get_location_ids c s ls acc =
       (Inr (acc @ map (location_id c s) ls),
        map (\<lambda>l. SearchLocation [(''name'', PStr l)]) ls)"
proof (induction ls arbitrary: acc)
  case Nil
  then show ?case by simp
next
  case (Cons l ls)
  from Cons.prems have "resolves c s l" by simp
  then obtain d where d: "search_location c [(''name'', PStr l)] s = Inr (Some d)" "d \<noteq> []"
    by (auto simp: resolves_def truthy_dict_def split: sum.splits option.splits)
  from Cons.prems have "\<forall>x\<in>set ls. resolves c s x" by simp
  from Cons.IH [OF this, of "acc @ [dict_get d ''id'']"] d
  show ?case by (simp add: location_id_def)
qed

lemma get_location_ids_first_miss:
  assumes "\<forall>x\<in>set pre. resolves c s x"
    and "search_location c [(''name'', PStr l)] s = Inr r" and "\<not> truthy_dict r"
  shows "get_location_ids c s (pre @ l # post) acc =
           (Inl (fail_json_positional (''Could not find Location '' @ l)),
            map (\<lambda>l. SearchLocation [(''name'', PStr l)]) (pre @ [l]))"
  using assms
proof (induction pre arbitrary: acc)
  case Nil
  then show ?case by (auto simp: truthy_dict_def split: option.splits)
next
  case (Cons x pre)
  from Cons.prems have "resolves c s x" by simp
  then obtain d where d: "search_location c [(''name'', PStr x)] s = Inr (Some d)" "d \<noteq> []"
    by (auto simp: resolves_def truthy_dict_def split: sum.splits option.splits)
  from Cons.prems have "\<forall>y\<in>set pre. resolves c s y" by simp
  from Cons.IH [OF this Cons.prems(2,3), of "acc @ [dict_get d ''id'']"] d
  show ?case by simp
qed

lemma get_location_ids_unresolved:
  "l \<in> set ls \<Longrightarrow> \<not> resolves c s l \<Longrightarrow> \<exists>f tr. get_location_ids c s ls acc = (Inl f, tr)"
proof (induction ls arbitrary: acc)
  case Nil
  then show ?case by simp
next
  case (Cons x ls)
  show ?case
  proof (cases "resolves c s x")
    case False
    then show ?thesis
      by (auto simp: resolves_def truthy_dict_def split: sum.splits option.splits)
  next
    case True
    then obtain d where d: "search_location c [(''name'', PStr x)] s = Inr (Some d)" "d \<noteq> []"
      by (auto simp: resolves_def truthy_dict_def split: sum.splits option.splits)
    from True Cons.prems have "l \<in> set ls" by auto
    from Cons.IH [OF this Cons.prems(2), of "acc @ [dict_get d ''id'']"]
    obtain f tr where "get_location_ids c s ls (acc @ [dict_get d ''id'']) = (Inl f, tr)"
      by blast
    with d show ?thesis by simp
  qed
qed

lemma location_data_resolved:
  assumes "\<forall>l\<in>set (location_names p). resolves c s l"
  shows "location_data c s p (name_data p) =
           (Inr ((''name'', PStr (name p)) #
                 (if truthy_list (locations p)
                  then [(''location_ids'', PList (map (location_id c s) (location_names p)))]
                  else [])),
            location_lookups p)"
proof (cases "locations p")
  case None
  then show ?thesis
    by (simp add: location_data_def truthy_list_def location_lookups_def location_names_def)
next
  case (Some ls)
  with assms have "\<forall>l\<in>set ls. resolves c s l" by (simp add: location_names_def)
  from get_location_ids_resolved [OF this, of "[]"] Some show ?thesis
    by (simp add: location_data_def truthy_list_def location_lookups_def location_names_def)
qed

lemma location_data_unresolved:
  assumes "l \<in> set (location_names p)" and "\<not> resolves c s l"
  shows "\<exists>f tr. location_data c s p d = (Inl f, tr)"
proof -
  from assms(1) obtain ls where ls: "locations p = Some ls" "l \<in> set ls"
    by (cases "locations p") (auto simp: location_names_def)
  then have "ls \<noteq> []" by auto
  from get_location_ids_unresolved [OF ls(2) assms(2), of "[]"]
  obtain f tr where "get_location_ids c s ls [] = (Inl f, tr)" by blast
  with ls \<open>ls \<noteq> []\<close> show ?thesis by (simp add: location_data_def)
qed

lemma location_data_Inr:
  assumes "location_data c s p d = (Inr d', tr)"
  shows "\<forall>l\<in>set (location_names p). resolves c s l"
proof (rule ccontr)
  assume "\<not> ?thesis"
  then obtain l where "l \<in> set (location_names p)" "\<not> resolves c s l" by blast
  from location_data_unresolved [OF this, of d] assms show False by auto
qed

lemma layout_data_valid:
  assumes "valid p" and "desired_layout fs p = Some L"
  shows "layout_data fs p d =
           (Inr (AList.update ''os_family'' (opt_str (os_family p))
                  (AList.update ''layout'' (PStr L) d)), layout_reads p)"
  using assms
  by (auto simp: layout_data_def valid_def desired_layout_def layout_reads_def truthy_str_def
        opt_str_def split: option.splits sum.splits if_splits)

lemma layout_data_Inr:
  assumes "layout_data fs p d = (Inr d', tr)"
  shows "valid p \<and> (\<exists>L. desired_layout fs p = Some L)"
  using layout_data_payload [OF assms] by (auto simp: valid_def)

lemma desired_data_updates:
  "AList.update ''os_family'' v
     (AList.update ''layout'' (PStr L)
        ((''name'', PStr (name p)) #
         (if truthy_list (locations p)
          then [(''location_ids'', PList (map (location_id c s) (location_names p)))]
          else []))) =
   (''name'', PStr (name p)) #
   (if truthy_list (locations p)
    then [(''location_ids'', PList (map (location_id c s) (location_names p)))]
    else []) @ [(''layout'', PStr L), (''os_family'', v)]"
  by simp

lemma ensure_prepared:
  assumes "valid p" and "desired_layout fs p = Some L"
    and "\<forall>l\<in>set (location_names p). resolves c s l"
    and "search_partition_table c (name_data p) s = Inr pt"
    and "ensure_action c p pt (desired_data c s p L) s = (r, t4, s')"
  shows "ensure c fs p s = (r, prelude p @ t4, s')"
proof -
  note ld = location_data_resolved [OF assms(3)]
  note yd = layout_data_valid [OF assms(1,2)]
  have "ensure c fs p s =
          (r, SearchPartitionTable (name_data p) # location_lookups p @ layout_reads p @ t4, s')"
    by (rule ensure_run [OF assms(4) ld yd])
       (use assms(5) in \<open>simp only: desired_data_updates desired_data_def\<close>)
  then show ?thesis by (simp add: prelude_def)
qed

lemma reached_action:
  assumes "location_data c s p (name_data p) = (Inr d2, t2)"
    and "layout_data fs p d2 = (Inr d3, t3)"
  shows "valid p \<and> (\<forall>l\<in>set (location_names p). resolves c s l)
           \<and> (\<exists>L. desired_layout fs p = Some L \<and> d3 = desired_data c s p L)
           \<and> t2 = location_lookups p \<and> t3 = layout_reads p"
proof -
  note res = location_data_Inr [OF assms(1)]
  from location_data_resolved [OF res] assms(1)
  have d2: "d2 = (''name'', PStr (name p)) #
                 (if truthy_list (locations p)
                  then [(''location_ids'', PList (map (location_id c s) (location_names p)))]
                  else [])"
    and t2: "t2 = location_lookups p" by simp_all
  from layout_data_Inr [OF assms(2)] obtain L
    where v: "valid p" and L: "desired_layout fs p = Some L" by blast
  from layout_data_valid [OF v L, of d2] assms(2)
  have "d3 = AList.update ''os_family'' (opt_str (os_family p))
               (AList.update ''layout'' (PStr L) d2)" and t3: "t3 = layout_reads p"
    by simp_all
  then have "d3 = desired_data c s p L"
    unfolding d2 desired_data_updates desired_data_def by simp
  with res v L t2 t3 show ?thesis by blast
qed

lemma prelude_not_mutating: "filter mutating (prelude p) = []"
  by (simp add: prelude_def location_lookups_def layout_reads_def split: option.splits)

lemma location_data_searches:
  assumes "location_data c s p d = (r, tr)"
  shows "\<forall>e\<in>set tr. phase e \<le> 1"
  using location_data_phase [OF assms] by simp

lemma ensure_action_phase:
  assumes "ensure_action c p pt data s = (r, tr, s')"
  shows "\<forall>e\<in>set tr. phase e = 3"
  using ensure_action_cases [OF assms] by auto

lemma ensure_action_mutations:
  assumes "ensure_action c p pt data s = (r, tr, s')"
  shows "length (filter mutating tr) \<le> 1
         \<and> (\<forall>e\<in>set (butlast tr). \<not> mutating e)
         \<and> (filter mutating tr = [] \<longrightarrow> s' = s)
         \<and> (\<forall>res. r = Inr (False, res) \<longrightarrow> filter mutating tr = [])
         \<and> (\<forall>res. r = Inr (True, res) \<longrightarrow> (\<exists>e. filter mutating tr = [e] \<and> last tr = e))"
  using ensure_action_cases [OF assms]
  by (elim disjE exE conjE) (auto split: sum.splits)

lemma ensure_action_payloads:
  assumes "ensure_action c p pt data s = (r, tr, s')"
  shows "\<forall>d\<in>set (payloads tr). d = data"
  using ensure_action_cases [OF assms]
  by (elim disjE exE conjE) (auto simp: payloads_def List.map_filter_simps)

lemma payloads_reads: "\<forall>e\<in>set tr. phase e < 3 \<Longrightarrow> payloads tr = []"
proof (induction tr)
  case Nil
  then show ?case by (simp add: payloads_def List.map_filter_simps)
next
  case (Cons e tr)
  then show ?case by (cases e) (simp_all add: payloads_def List.map_filter_simps)
qed

lemma mutating_reads: "\<forall>e\<in>set tr. phase e < 3 \<Longrightarrow> filter mutating tr = []"
proof (induction tr)
  case Nil
  then show ?case by simp
next
  case (Cons e tr)
  then show ?case by (cases e) simp_all
qed

lemma payloads_append: "payloads (xs @ ys) = payloads xs @ payloads ys"
  by (simp add: payloads_def List.map_filter_def)

lemma payloads_Cons_search: "payloads (SearchPartitionTable q # tr) = payloads tr"
  by (simp add: payloads_def List.map_filter_simps)

text \<open>A run either fails before the decision, issuing reads only, or reaches it.\<close>

lemma ensure_shape:
  assumes "ensure c fs p s = (r, tr, s')"
  shows "(\<exists>f k t3. r = Inl f \<and> s' = s
            \<and> tr = SearchPartitionTable (name_data p) # take k (location_lookups p) @ t3
            \<and> (t3 \<noteq> [] \<longrightarrow> take k (location_lookups p) = location_lookups p \<and> t3 = layout_reads p))
       \<or> (\<exists>pt L t4. valid p \<and> desired_layout fs p = Some L
            \<and> (\<forall>l\<in>set (location_names p). resolves c s l)
            \<and> search_partition_table c (name_data p) s = Inr pt
            \<and> ensure_action c p pt (desired_data c s p L) s = (r, t4, s')
            \<and> tr = prelude p @ t4)"
  using ensure_cases [OF assms]
proof (elim disjE exE conjE)
  fix e
  assume "r = Inl (FailJson (''Could not get partition table: '' @ e))"
    and "tr = [SearchPartitionTable (name_data p)]" and "s' = s"
  then have "r = Inl (FailJson (''Could not get partition table: '' @ e)) \<and> s' = s
      \<and> tr = SearchPartitionTable (name_data p) # take 0 (location_lookups p) @ []
      \<and> ([] \<noteq> [] \<longrightarrow> take 0 (location_lookups p) = location_lookups p \<and> [] = layout_reads p)"
    by simp
  then show ?thesis by blast
next
  fix pt f t2
  assume ld: "location_data c s p (name_data p) = (Inl f, t2)"
    and "r = Inl f" and "tr = SearchPartitionTable (name_data p) # t2" and "s' = s"
  moreover from location_data_trace [OF ld] obtain k where "t2 = take k (location_lookups p)"
    by blast
  ultimately have "r = Inl f \<and> s' = s
      \<and> tr = SearchPartitionTable (name_data p) # take k (location_lookups p) @ []
      \<and> ([] \<noteq> [] \<longrightarrow> take k (location_lookups p) = location_lookups p \<and> [] = layout_reads p)"
    by simp
  then show ?thesis by blast
next
  fix pt d2 t2 f t3
  assume ld: "location_data c s p (name_data p) = (Inr d2, t2)"
    and yd: "layout_data fs p d2 = (Inl f, t3)"
    and r: "r = Inl f" and tr: "tr = SearchPartitionTable (name_data p) # t2 @ t3" and s: "s' = s"
  from location_data_resolved [OF location_data_Inr [OF ld]] ld
  have t2: "t2 = location_lookups p" by simp
  from yd have "t3 = [] \<or> t3 = layout_reads p"
    by (auto simp: layout_data_def layout_reads_def split: if_splits option.splits sum.splits)
  with r tr s t2 have "r = Inl f \<and> s' = s
      \<and> tr = SearchPartitionTable (name_data p) # take (length (location_lookups p)) (location_lookups p) @ t3
      \<and> (t3 \<noteq> [] \<longrightarrow>
            take (length (location_lookups p)) (location_lookups p) = location_lookups p
            \<and> t3 = layout_reads p)"
    by auto
  then show ?thesis by blast
next
  fix pt d2 t2 d3 t3 t4
  assume sp: "search_partition_table c (name_data p) s = Inr pt"
    and ld: "location_data c s p (name_data p) = (Inr d2, t2)"
    and yd: "layout_data fs p d2 = (Inr d3, t3)"
    and act: "ensure_action c p pt d3 s = (r, t4, s')"
    and tr: "tr = SearchPartitionTable (name_data p) # t2 @ t3 @ t4"
  from reached_action [OF ld yd] obtain L
    where "valid p" "\<forall>l\<in>set (location_names p). resolves c s l" "desired_layout fs p = Some L"
      "d3 = desired_data c s p L" "t2 = location_lookups p" "t3 = layout_reads p"
    by blast
  with sp act tr show ?thesis by (auto simp: prelude_def)
qed

lemma sorted_const: "\<forall>x\<in>set xs. x = (c::nat) \<Longrightarrow> sorted xs"
  by (induction xs) auto

lemma take_lookups_phase: "\<forall>e\<in>set (take k (location_lookups p)). phase e = 1"
proof -
  have "set (take k (location_lookups p)) \<subseteq> set (location_lookups p)" by (rule set_take_subset)
  then show ?thesis by (auto simp: location_lookups_def)
qed

lemma lookups_phase: "\<forall>e\<in>set (location_lookups p). phase e = 1"
  by (auto simp: location_lookups_def)

lemma prelude_phases: "sorted (map phase (prelude p)) \<and> (\<forall>e\<in>set (prelude p). phase e < 3)"
proof -
  have "sorted (map phase (location_lookups p))"
    by (rule sorted_const [of _ 1]) (use lookups_phase in auto)
  with lookups_phase [of p] show ?thesis
    by (auto simp: prelude_def layout_reads_def sorted_append split: option.splits)
qed

lemma resolves_same:
  "\<forall>q. search_location c q s' = search_location c q s \<Longrightarrow> resolves c s' l = resolves c s l"
  by (simp add: resolves_def)

lemma desired_data_same:
  "\<forall>q. search_location c q s' = search_location c q s \<Longrightarrow>
     desired_data c s' p L = desired_data c s p L"
  by (simp add: desired_data_def location_id_def)

lemma desired_data_layout: "dict_get (desired_data c s p L) ''layout'' = PStr L"
  by (simp add: desired_data_def dict_get_def)

lemma stored_run:
  assumes "state p = Present" and "valid p" and "desired_layout fs p = Some L"
    and "\<forall>l\<in>set (location_names p). resolves c s l"
    and "stored c (name_data p) (desired_data c s p L) s"
  shows "\<exists>g. ensure c fs p s =
               (Inr (False, Some g), prelude p @ [GetPartitionTable
                  (case search_partition_table c (name_data p) s of
                     Inr (Some d) \<Rightarrow> dict_get d ''id'' | _ \<Rightarrow> PNone)], s)
             \<and> dict_get g ''layout'' = PStr L"
proof -
  from assms(5) obtain d
    where sp: "search_partition_table c (name_data p) s = Inr (Some d)" and d: "d \<noteq> []"
    by (cases "search_partition_table c (name_data p) s")
       (auto simp: stored_def split: option.splits)
  with assms(5) obtain g
    where g: "get_partition_table c (dict_get d ''id'') s = Inr g"
      and lay: "dict_get g ''layout'' = PStr L"
    by (cases "get_partition_table c (dict_get d ''id'') s")
       (auto simp: stored_def desired_data_layout)
  from assms(1) d g lay
  have "ensure_action c p (Some d) (desired_data c s p L) s =
          (Inr (False, Some g), [GetPartitionTable (dict_get d ''id'')], s)"
    by (simp add: ensure_action_def truthy_dict_def desired_data_layout)
  from ensure_prepared [OF assms(2,3,4) sp this] sp lay show ?thesis by simp
qed

lemma removed_run:
  assumes "state p = Absent" and "valid p" and "desired_layout fs p = Some L"
    and "\<forall>l\<in>set (location_names p). resolves c s l"
    and "removed c (name_data p) s"
  shows "\<exists>res. ensure c fs p s = (Inr (False, res), prelude p, s)"
proof -
  from assms(5) obtain pt
    where sp: "search_partition_table c (name_data p) s = Inr pt" and pt: "\<not> truthy_dict pt"
    by (auto simp: removed_def split: sum.splits)
  from assms(1) pt
  have "ensure_action c p pt (desired_data c s p L) s = (Inr (False, pt), [], s)"
    by (simp add: ensure_action_def)
  from ensure_prepared [OF assms(2,3,4) sp this] show ?thesis by simp
qed

subsection \<open>Runs on the concrete inputs\<close>

lemmas run_defs =
  ensure_def location_data_def layout_data_def ensure_action_def
  truthy_str_def truthy_dict_def truthy_list_def opt_str_def dict_get_def
  mem_foreman_def mem_create_def mem_delete_def mem_update_def by_name_def by_id_def
  example_fs_def store_with_def stored_freebsd_def freebsd_def freebsd_from_file_def
  freebsd_absent_def freebsd_unspecified_def freebsd_blank_def freebsd_located_def
  freebsd_nowhere_def freebsd_removed_def freebsd_missing_file_def
  fail_json_positional_def

lemma run_create:
  "ensure mem_foreman example_fs freebsd (store_with []) =
     (Inr (True, Some [(''name'', PStr ''FreeBSD''), (''layout'', PStr ''zfs on root''),
                       (''os_family'', PStr ''FreeBSD''), (''id'', PInt 2)]),
      [SearchPartitionTable [(''name'', PStr ''FreeBSD'')],
       CreatePartitionTable [(''name'', PStr ''FreeBSD''), (''layout'', PStr ''zfs on root''),
                             (''os_family'', PStr ''FreeBSD'')]],
      \<lparr>partition_tables = [[(''name'', PStr ''FreeBSD''), (''layout'', PStr ''zfs on root''),
                             (''os_family'', PStr ''FreeBSD''), (''id'', PInt 2)]],
       location_records = [[(''id'', PInt 7), (''name'', PStr ''Dulles'')]],
       next_id = 3\<rparr>)"
  by (simp add: run_defs)

lemma run_update:
  "ensure mem_foreman example_fs freebsd (store_with [stored_freebsd (PStr ''ufs'')]) =
     (Inr (True, Some [(''id'', PInt 1), (''name'', PStr ''FreeBSD''),
                       (''layout'', PStr ''zfs on root''), (''os_family'', PStr ''FreeBSD'')]),
      [SearchPartitionTable [(''name'', PStr ''FreeBSD'')],
       GetPartitionTable (PInt 1),
       UpdatePartitionTable (PInt 1)
         [(''name'', PStr ''FreeBSD''), (''layout'', PStr ''zfs on root''),
          (''os_family'', PStr ''FreeBSD'')]],
      store_with [[(''id'', PInt 1), (''name'', PStr ''FreeBSD''),
                   (''layout'', PStr ''zfs on root''), (''os_family'', PStr ''FreeBSD'')]])"
  by (simp add: run_defs)

lemma run_located:
  "ensure mem_foreman example_fs freebsd_located (store_with []) =
     (Inr (True, Some [(''name'', PStr ''FreeBSD''), (''location_ids'', PList [PInt 7]),
                       (''layout'', PStr ''zfs on root''), (''os_family'', PStr ''FreeBSD''),
                       (''id'', PInt 2)]),
      [SearchPartitionTable [(''name'', PStr ''FreeBSD'')],
       SearchLocation [(''name'', PStr ''Dulles'')],
       OpenFile ''ptable.txt'',
       CreatePartitionTable [(''name'', PStr ''FreeBSD''), (''location_ids'', PList [PInt 7]),
                             (''layout'', PStr ''zfs on root''),
                             (''os_family'', PStr ''FreeBSD'')]],
      \<lparr>partition_tables = [[(''name'', PStr ''FreeBSD''), (''location_ids'', PList [PInt 7]),
                             (''layout'', PStr ''zfs on root''),
                             (''os_family'', PStr ''FreeBSD''), (''id'', PInt 2)]],
       location_records = [[(''id'', PInt 7), (''name'', PStr ''Dulles'')]],
       next_id = 3\<rparr>)"
  by (simp add: run_defs)

lemma run_exI:
  "ensure c fs p s = (r, tr, s') \<Longrightarrow> P r tr s' \<Longrightarrow>
     \<exists>r tr s'. ensure c fs p s = (r, tr, s') \<and> P r tr s'"
  by blast

section \<open>The claims\<close>

subsection \<open>C1: the check of layout against template_file\<close>

text \<open>
  Claim C1 says that a descriptor with both or neither of \<open>layout\<close> and
  \<open>template_file\<close> fails validation before any remote call. The module searches by
  name and looks the locations up first, so the claim holds in this form: such a run
  always fails, leaves the remote state as it is, and issues nothing but the search by
  name and location lookups (no read of the file, no fetch, create, update or delete);
  when the search answers and every location resolves, the calls are exactly the search
  and the lookups, and the failure is the validation message.
\<close>

theorem ensure_invalid_descriptor:
  assumes "\<not> valid p"
  shows "\<exists>f tr. ensure c fs p s = (Inl f, tr, s)
           \<and> (\<forall>e\<in>set tr. phase e \<le> 1)
           \<and> ((\<exists>pt. search_partition_table c (name_data p) s = Inr pt)
                \<and> (\<forall>l\<in>set (location_names p). resolves c s l)
              \<longrightarrow> tr = SearchPartitionTable (name_data p) # location_lookups p
                \<and> f = FailJson
                      (if truthy_str (layout p)
                       then ''Only one of either layout or template_file must be defined''
                       else ''Either layout or template_file must be defined''))"
proof (cases "search_partition_table c (name_data p) s")
  case (Inl e)
  then show ?thesis by (simp add: ensure_def)
next
  case (Inr pt)
  obtain x t2 where ld: "location_data c s p (name_data p) = (x, t2)"
    by (cases "location_data c s p (name_data p)") auto
  note ph = location_data_searches [OF ld]
  from assms have inv: "truthy_str (layout p) = truthy_str (template_file p)"
    by (simp add: valid_def)
  show ?thesis
  proof (cases x)
    case (Inl f)
    with ld have "\<not> (\<forall>l\<in>set (location_names p). resolves c s l)"
      using location_data_resolved [of p c s] by auto
    with Inr Inl ld ph show ?thesis by (auto simp: ensure_def)
  next
    case (Inr d2)
    have t2: "t2 = location_lookups p"
      using location_data_resolved [OF location_data_Inr, of c s p "name_data p" d2 t2] ld Inr
      by simp
    from \<open>search_partition_table c (name_data p) s = Inr pt\<close> Inr ld ph t2
      layout_data_invalid [OF inv, of fs d2]
    show ?thesis by (simp add: ensure_def)
  qed
qed

text \<open>
  Claim C1 as stated fails: with neither \<open>layout\<close> nor \<open>template_file\<close>, the search
  by name and a location lookup are issued before the validation failure.
\<close>

theorem validation_after_search:
  "layout freebsd_unspecified = None \<and> template_file freebsd_unspecified = None
   \<and> ensure mem_foreman example_fs freebsd_unspecified (store_with []) =
       (Inl (FailJson ''Either layout or template_file must be defined''),
        [SearchPartitionTable [(''name'', PStr ''FreeBSD'')],
         SearchLocation [(''name'', PStr ''Dulles'')]],
        store_with [])"
  by (simp add: run_defs)

theorem ensure_invalid_descriptor_witness:
  "\<not> valid freebsd_unspecified
   \<and> (\<exists>f tr. ensure mem_foreman example_fs freebsd_unspecified (store_with []) =
                (Inl f, tr, store_with [])
        \<and> (\<forall>e\<in>set tr. phase e \<le> 1)
        \<and> tr = [SearchPartitionTable [(''name'', PStr ''FreeBSD'')],
                 SearchLocation [(''name'', PStr ''Dulles'')]]
        \<and> f = FailJson ''Either layout or template_file must be defined'')"
proof -
  have h: "\<not> valid freebsd_unspecified"
    by (simp add: valid_def freebsd_unspecified_def freebsd_def truthy_str_def)
  have a: "\<exists>pt. search_partition_table mem_foreman (name_data freebsd_unspecified)
                  (store_with []) = Inr pt"
    by (simp add: mem_foreman_def)
  have b: "\<forall>l\<in>set (location_names freebsd_unspecified). resolves mem_foreman (store_with []) l"
    by (simp add: location_names_def freebsd_unspecified_def freebsd_def resolves_def
          mem_foreman_def store_with_def by_name_def dict_get_def truthy_dict_def)
  have c: "SearchPartitionTable (name_data freebsd_unspecified) #
             location_lookups freebsd_unspecified =
           [SearchPartitionTable [(''name'', PStr ''FreeBSD'')],
            SearchLocation [(''name'', PStr ''Dulles'')]]"
    by (simp add: location_lookups_def location_names_def freebsd_unspecified_def freebsd_def)
  have d: "\<not> truthy_str (layout freebsd_unspecified)"
    by (simp add: freebsd_unspecified_def freebsd_def truthy_str_def)
  from ensure_invalid_descriptor [OF h, of mem_foreman example_fs "store_with []"] a b
  show ?thesis unfolding c using h d by auto
qed

subsection \<open>C2: an existing partition table, state present\<close>

text \<open>
  Claim C2 says that, for a valid descriptor with state present whose name is found, the
  full record is fetched by id and the run returns unchanged with no update exactly when
  the record's layout equals the resolved desired layout. The module compares the
  record's layout with the raw \<open>layout\<close> parameter as well, so the claim holds in this
  form: for a valid descriptor with state present whose locations resolve, whose layout
  resolves to \<open>L\<close>, whose name is found and whose full record \<open>g\<close> is fetched, the run
  returns \<open>(False, g)\<close> after the fetch, with no update and the remote state as it was,
  exactly when the layout of \<open>g\<close> equals \<open>L\<close> or equals the raw \<open>layout\<close> parameter;
  otherwise it issues one update by the id of \<open>g\<close> with the data and, when the update
  answers, returns changed with that answer.
\<close>

theorem ensure_present_existing:
  assumes "state p = Present"
    and "valid p" and "desired_layout fs p = Some L"
    and "\<forall>l\<in>set (location_names p). resolves c s l"
    and "search_partition_table c (name_data p) s = Inr (Some d)" and "d \<noteq> []"
    and "get_partition_table c (dict_get d ''id'') s = Inr g"
  shows "ensure c fs p s =
           (if dict_get g ''layout'' = opt_str (layout p) \<or> dict_get g ''layout'' = PStr L
            then (Inr (False, Some g), prelude p @ [GetPartitionTable (dict_get d ''id'')], s)
            else
              (case update_partition_table c (dict_get g ''id'') (desired_data c s p L) s of
                 (x, s') \<Rightarrow>
                   (case x of
                      Inl e \<Rightarrow> Inl (FailJson (''Could not update partition table: '' @ e))
                    | Inr u \<Rightarrow> Inr (True, Some u),
                    prelude p @
                      [GetPartitionTable (dict_get d ''id''),
                       UpdatePartitionTable (dict_get g ''id'') (desired_data c s p L)],
                    s')))"
proof -
  have lay: "dict_get (desired_data c s p L) ''layout'' = PStr L"
    by (simp add: desired_data_def dict_get_def)
  obtain r t4 s' where act: "ensure_action c p (Some d) (desired_data c s p L) s = (r, t4, s')"
    by (cases "ensure_action c p (Some d) (desired_data c s p L) s") auto
  note run = ensure_prepared [OF assms(2,3,4,5) act]
  from act assms(1,6,7) lay show ?thesis
    unfolding run
    by (auto simp: ensure_action_def truthy_dict_def split: if_splits prod.splits sum.splits)
qed

text \<open>
  Claim C2 as stated fails: with the layout read from the template file and a stored
  record whose layout is \<open>None\<close>, the run returns unchanged although the record's layout
  differs from the resolved desired layout.
\<close>

theorem unchanged_with_other_layout:
  "layout freebsd_from_file = None
   \<and> desired_layout example_fs freebsd_from_file = Some ''zfs on root''
   \<and> dict_get (stored_freebsd PNone) ''layout'' \<noteq> PStr ''zfs on root''
   \<and> ensure mem_foreman example_fs freebsd_from_file (store_with [stored_freebsd PNone]) =
       (Inr (False, Some (stored_freebsd PNone)),
        [SearchPartitionTable [(''name'', PStr ''FreeBSD'')], OpenFile ''ptable.txt'',
         GetPartitionTable (PInt 1)],
        store_with [stored_freebsd PNone])"
  by (simp add: run_defs desired_layout_def)

theorem ensure_present_existing_witness:
  "state freebsd = Present \<and> valid freebsd
   \<and> desired_layout example_fs freebsd = Some ''zfs on root''
   \<and> search_partition_table mem_foreman (name_data freebsd)
         (store_with [stored_freebsd (PStr ''ufs'')]) = Inr (Some (stored_freebsd (PStr ''ufs'')))
   \<and> get_partition_table mem_foreman (PInt 1) (store_with [stored_freebsd (PStr ''ufs'')]) =
       Inr (stored_freebsd (PStr ''ufs''))
   \<and> ensure mem_foreman example_fs freebsd (store_with [stored_freebsd (PStr ''ufs'')]) =
       (Inr (True, Some [(''id'', PInt 1), (''name'', PStr ''FreeBSD''),
                         (''layout'', PStr ''zfs on root''), (''os_family'', PStr ''FreeBSD'')]),
        [SearchPartitionTable [(''name'', PStr ''FreeBSD'')],
         GetPartitionTable (PInt 1),
         UpdatePartitionTable (PInt 1)
           [(''name'', PStr ''FreeBSD''), (''layout'', PStr ''zfs on root''),
            (''os_family'', PStr ''FreeBSD'')]],
        store_with [[(''id'', PInt 1), (''name'', PStr ''FreeBSD''),
                     (''layout'', PStr ''zfs on root''), (''os_family'', PStr ''FreeBSD'')]])"
proof -
  have h1: "state freebsd = Present" by (simp add: freebsd_def)
  have h2: "valid freebsd" by (simp add: valid_def freebsd_def truthy_str_def)
  have h3: "desired_layout example_fs freebsd = Some ''zfs on root''"
    by (simp add: desired_layout_def freebsd_def truthy_str_def)
  have h4: "\<forall>l\<in>set (location_names freebsd).
              resolves mem_foreman (store_with [stored_freebsd (PStr ''ufs'')]) l"
    by (simp add: location_names_def freebsd_def)
  have h5: "search_partition_table mem_foreman (name_data freebsd)
              (store_with [stored_freebsd (PStr ''ufs'')]) =
            Inr (Some (stored_freebsd (PStr ''ufs'')))"
    by (simp add: mem_foreman_def store_with_def stored_freebsd_def by_name_def dict_get_def
          freebsd_def)
  have h6: "stored_freebsd (PStr ''ufs'') \<noteq> []" by (simp add: stored_freebsd_def)
  have i: "dict_get (stored_freebsd (PStr ''ufs'')) ''id'' = PInt 1"
    by (simp add: stored_freebsd_def dict_get_def)
  have h7: "get_partition_table mem_foreman (dict_get (stored_freebsd (PStr ''ufs'')) ''id'')
              (store_with [stored_freebsd (PStr ''ufs'')]) =
            Inr (stored_freebsd (PStr ''ufs''))"
    by (simp add: mem_foreman_def store_with_def stored_freebsd_def by_id_def dict_get_def)
  from ensure_present_existing [OF h1 h2 h3 h4 h5 h6 h7] h1 h2 h3 h5 h7
  show ?thesis
    by (simp add: i prelude_def location_lookups_def location_names_def layout_reads_def
          desired_data_def run_defs)
qed

subsection \<open>C3: running twice\<close>

text \<open>
  Claim C3 says that reconciliation is idempotent and that, for state present, the layout
  after two runs is the resolved desired layout. The second part fails where line 156
  accepts a record because its layout equals the raw \<open>layout\<close> parameter. The claim
  holds in this form: after a successful run, when the server has applied the run's create,
  update or delete (the search by name then finds the record with the layout of the data,
  or finds nothing after a delete) and answers the location lookups as before, a second
  run with the same descriptor against the resulting remote state returns unchanged and
  leaves that state as it is; for state present the record it returns has the resolved
  desired layout or the raw \<open>layout\<close> parameter as its layout.
\<close>

theorem ensure_idempotent:
  assumes run1: "ensure c fs p s = (Inr (changed, res), tr, s')"
    and srv: "\<forall>e\<in>set tr. applied c (name_data p) s' e"
    and locs: "\<forall>q. search_location c q s' = search_location c q s"
  shows "\<exists>res2 tr2. ensure c fs p s' = (Inr (False, res2), tr2, s')
           \<and> (state p = Present \<longrightarrow>
                (\<exists>g L. res2 = Some g \<and> desired_layout fs p = Some L
                   \<and> (dict_get g ''layout'' = PStr L
                        \<or> dict_get g ''layout'' = opt_str (layout p))))"
proof -
  from ensure_shape [OF run1] obtain pt L t4
    where v: "valid p" and L: "desired_layout fs p = Some L"
      and res: "\<forall>l\<in>set (location_names p). resolves c s l"
      and sp: "search_partition_table c (name_data p) s = Inr pt"
      and act: "ensure_action c p pt (desired_data c s p L) s = (Inr (changed, res), t4, s')"
      and tr: "tr = prelude p @ t4"
    by auto
  from res locs have res': "\<forall>l\<in>set (location_names p). resolves c s' l"
    by (simp add: resolves_def)
  note dd = desired_data_same [OF locs, of p L]
  from srv tr have srv4: "\<forall>e\<in>set t4. applied c (name_data p) s' e" by simp
  from ensure_action_cases [OF act]
  consider
    (noop) "t4 = []" "s' = s" "changed = False" "res = pt" "\<not> truthy_dict pt" "state p = Absent"
  | (create) "t4 = [CreatePartitionTable (desired_data c s p L)]" "state p = Present"
  | (delete) d where "t4 = [DeletePartitionTable (dict_get d ''id'')]" "state p = Absent"
  | (same) d g where "pt = Some d" "d \<noteq> []" "state p = Present"
      "get_partition_table c (dict_get d ''id'') s = Inr g"
      "dict_get g ''layout'' = opt_str (layout p) \<or>
       dict_get g ''layout'' = dict_get (desired_data c s p L) ''layout''"
      "s' = s" "changed = False" "res = Some g"
  | (update) d g where "state p = Present"
      "t4 = [GetPartitionTable (dict_get d ''id''),
             UpdatePartitionTable (dict_get g ''id'') (desired_data c s p L)]"
    by (elim disjE exE conjE) auto
  then show ?thesis
  proof cases
    case noop
    with run1 show ?thesis by auto
  next
    case create
    with srv4 have "stored c (name_data p) (desired_data c s' p L) s'" by (simp add: dd)
    from stored_run [OF create(2) v L res' this] L show ?thesis by auto
  next
    case delete
    with srv4 have "removed c (name_data p) s'" by simp
    from removed_run [OF delete(2) v L res' this] delete(2) show ?thesis by auto
  next
    case same
    with run1 L show ?thesis by (auto simp: desired_data_layout)
  next
    case update
    with srv4 have "stored c (name_data p) (desired_data c s' p L) s'" by (simp add: dd)
    from stored_run [OF update(1) v L res' this] L show ?thesis by auto
  qed
qed

text \<open>
  Claim C3 as stated fails: with an empty \<open>layout\<close> next to a template file and a stored
  record whose layout is empty, the run succeeds unchanged and leaves the store as it is,
  so that every further run does the same, and the layout stays different from the resolved
  desired layout.
\<close>

theorem rerun_keeps_other_layout:
  "state freebsd_blank = Present
   \<and> desired_layout example_fs freebsd_blank = Some ''zfs on root''
   \<and> ensure mem_foreman example_fs freebsd_blank (store_with [stored_freebsd (PStr [])]) =
       (Inr (False, Some (stored_freebsd (PStr []))),
        [SearchPartitionTable [(''name'', PStr ''FreeBSD'')], OpenFile ''ptable.txt'',
         GetPartitionTable (PInt 1)],
        store_with [stored_freebsd (PStr [])])
   \<and> dict_get (stored_freebsd (PStr [])) ''layout'' = PStr []
   \<and> PStr [] \<noteq> PStr ''zfs on root''"
  by (simp add: run_defs desired_layout_def)

theorem ensure_idempotent_witness:
  "ensure mem_foreman example_fs freebsd (store_with []) =
     (Inr (True, Some [(''name'', PStr ''FreeBSD''), (''layout'', PStr ''zfs on root''),
                       (''os_family'', PStr ''FreeBSD''), (''id'', PInt 2)]),
      [SearchPartitionTable [(''name'', PStr ''FreeBSD'')],
       CreatePartitionTable [(''name'', PStr ''FreeBSD''), (''layout'', PStr ''zfs on root''),
                             (''os_family'', PStr ''FreeBSD'')]],
      \<lparr>partition_tables = [[(''name'', PStr ''FreeBSD''), (''layout'', PStr ''zfs on root''),
                             (''os_family'', PStr ''FreeBSD''), (''id'', PInt 2)]],
       location_records = [[(''id'', PInt 7), (''name'', PStr ''Dulles'')]],
       next_id = 3\<rparr>)
   \<and> (\<exists>res2 tr2.
         ensure mem_foreman example_fs freebsd
           \<lparr>partition_tables = [[(''name'', PStr ''FreeBSD''), (''layout'', PStr ''zfs on root''),
                                  (''os_family'', PStr ''FreeBSD''), (''id'', PInt 2)]],
            location_records = [[(''id'', PInt 7), (''name'', PStr ''Dulles'')]],
            next_id = 3\<rparr> =
         (Inr (False, res2), tr2,
          \<lparr>partition_tables = [[(''name'', PStr ''FreeBSD''), (''layout'', PStr ''zfs on root''),
                                 (''os_family'', PStr ''FreeBSD''), (''id'', PInt 2)]],
           location_records = [[(''id'', PInt 7), (''name'', PStr ''Dulles'')]],
           next_id = 3\<rparr>)
         \<and> (\<exists>g. res2 = Some g \<and> dict_get g ''layout'' = PStr ''zfs on root''))"
proof -
  let ?s' = "\<lparr>partition_tables = [[(''name'', PStr ''FreeBSD''), (''layout'', PStr ''zfs on root''),
                                  (''os_family'', PStr ''FreeBSD''), (''id'', PInt 2)]],
             location_records = [[(''id'', PInt 7), (''name'', PStr ''Dulles'')]],
             next_id = 3\<rparr>"
  let ?tr = "[SearchPartitionTable [(''name'', PStr ''FreeBSD'')],
              CreatePartitionTable [(''name'', PStr ''FreeBSD''), (''layout'', PStr ''zfs on root''),
                                    (''os_family'', PStr ''FreeBSD'')]]"
  note h1 = run_create
  have h2: "\<forall>e\<in>set ?tr. applied mem_foreman (name_data freebsd) ?s' e"
    by (simp add: stored_def mem_foreman_def by_name_def by_id_def dict_get_def freebsd_def)
  have h3: "\<forall>q. search_location mem_foreman q ?s' = search_location mem_foreman q (store_with [])"
    by (simp add: mem_foreman_def store_with_def)
  have p: "state freebsd = Present" by (simp add: freebsd_def)
  have l: "desired_layout example_fs freebsd = Some ''zfs on root''"
    "opt_str (layout freebsd) = PStr ''zfs on root''"
    by (simp_all add: desired_layout_def freebsd_def truthy_str_def opt_str_def)
  from ensure_idempotent [OF h1 h2 h3] p l h1 show ?thesis by auto
qed

subsection \<open>C4: no existing partition table, state present\<close>

text \<open>
  Claim C4 says that every valid descriptor with state present whose name is not found
  leads to one create and to changed with the answer of the create call. Between the
  search and the create the module resolves the locations and the layout, and either can
  end the run; the create call itself can be refused. The claim holds in this form: for a
  valid descriptor with state present whose locations resolve, whose layout resolves to
  \<open>L\<close> and whose name is not found, the module calls create exactly once, as the last
  and only call that changes the remote state, with the data
  \<open>{name, location_ids, layout, os_family}\<close> (\<open>location_ids\<close> for a non-empty
  \<open>locations\<close>); when the create call answers, the run returns changed with that answer,
  and when it raises, the run fails with \<open>Could not create partition table\<close>. The data
  carries the name of the descriptor, so an answer that repeats the name it was sent has
  that name. The example of the claim is the witness below.
\<close>

theorem ensure_creates_missing:
  assumes "state p = Present"
    and "valid p" and "desired_layout fs p = Some L"
    and "\<forall>l\<in>set (location_names p). resolves c s l"
    and "search_partition_table c (name_data p) s = Inr pt" and "\<not> truthy_dict pt"
  shows "ensure c fs p s =
           (case create_partition_table c (desired_data c s p L) s of
              (x, s') \<Rightarrow>
                (case x of
                   Inl e \<Rightarrow> Inl (FailJson (''Could not create partition table: '' @ e))
                 | Inr r \<Rightarrow> Inr (True, Some r),
                 prelude p @ [CreatePartitionTable (desired_data c s p L)], s'))
         \<and> filter mutating (prelude p @ [CreatePartitionTable (desired_data c s p L)]) =
             [CreatePartitionTable (desired_data c s p L)]
         \<and> dict_get (desired_data c s p L) ''name'' = PStr (name p)
         \<and> (dict_get r ''name'' = dict_get (desired_data c s p L) ''name''
              \<longrightarrow> dict_get r ''name'' = PStr (name p))"
proof -
  obtain x t4 s' where act: "ensure_action c p pt (desired_data c s p L) s = (x, t4, s')"
    by (cases "ensure_action c p pt (desired_data c s p L) s") auto
  note run = ensure_prepared [OF assms(2,3,4,5) act]
  from act assms(1,6)
  have "ensure c fs p s =
          (case create_partition_table c (desired_data c s p L) s of
             (x, s') \<Rightarrow>
               (case x of
                  Inl e \<Rightarrow> Inl (FailJson (''Could not create partition table: '' @ e))
                | Inr r \<Rightarrow> Inr (True, Some r),
                prelude p @ [CreatePartitionTable (desired_data c s p L)], s'))"
    unfolding run by (auto simp: ensure_action_def split: prod.splits sum.splits)
  moreover have "dict_get (desired_data c s p L) ''name'' = PStr (name p)"
    by (simp add: desired_data_def dict_get_def)
  ultimately show ?thesis by (simp add: prelude_not_mutating)
qed

text \<open>
  Claim C4 as stated fails: this descriptor is valid, its state is present and its name
  is not found, but its template file cannot be read; the run fails and issues no create.
\<close>

theorem missing_template_no_create:
  "state freebsd_missing_file = Present \<and> valid freebsd_missing_file
   \<and> search_partition_table mem_foreman (name_data freebsd_missing_file) (store_with []) =
       Inr None
   \<and> ensure mem_foreman example_fs freebsd_missing_file (store_with []) =
       (Inl (FailJson ''Could not open file missing.txt: No such file or directory''),
        [SearchPartitionTable [(''name'', PStr ''FreeBSD'')], OpenFile ''missing.txt''],
        store_with [])"
  by (simp add: run_defs valid_def)

theorem ensure_creates_missing_witness:
  "state freebsd = Present \<and> valid freebsd
   \<and> desired_layout example_fs freebsd = Some ''zfs on root''
   \<and> search_partition_table mem_foreman (name_data freebsd) (store_with []) = Inr None
   \<and> (\<exists>r tr s'. ensure mem_foreman example_fs freebsd (store_with []) = (Inr (True, Some r), tr, s')
        \<and> filter mutating tr =
            [CreatePartitionTable [(''name'', PStr ''FreeBSD''), (''layout'', PStr ''zfs on root''),
                                   (''os_family'', PStr ''FreeBSD'')]]
        \<and> dict_get r ''name'' = PStr ''FreeBSD'')"
proof -
  have h1: "state freebsd = Present" by (simp add: freebsd_def)
  have h2: "valid freebsd" by (simp add: valid_def freebsd_def truthy_str_def)
  have h3: "desired_layout example_fs freebsd = Some ''zfs on root''"
    by (simp add: desired_layout_def freebsd_def truthy_str_def)
  have h4: "\<forall>l\<in>set (location_names freebsd). resolves mem_foreman (store_with []) l"
    by (simp add: location_names_def freebsd_def)
  have h5: "search_partition_table mem_foreman (name_data freebsd) (store_with []) = Inr None"
    by (simp add: mem_foreman_def store_with_def)
  have h6: "\<not> truthy_dict None" by (simp add: truthy_dict_def)
  have d: "desired_data mem_foreman (store_with []) freebsd ''zfs on root'' =
             [(''name'', PStr ''FreeBSD''), (''layout'', PStr ''zfs on root''),
              (''os_family'', PStr ''FreeBSD'')]"
    by (simp add: desired_data_def freebsd_def truthy_list_def opt_str_def)
  have h7: "create_partition_table mem_foreman
              (desired_data mem_foreman (store_with []) freebsd ''zfs on root'') (store_with []) =
            (Inr [(''name'', PStr ''FreeBSD''), (''layout'', PStr ''zfs on root''),
                  (''os_family'', PStr ''FreeBSD''), (''id'', PInt 2)],
             \<lparr>partition_tables = [[(''name'', PStr ''FreeBSD''), (''layout'', PStr ''zfs on root''),
                             (''os_family'', PStr ''FreeBSD''), (''id'', PInt 2)]],
              location_records = [[(''id'', PInt 7), (''name'', PStr ''Dulles'')]],
              next_id = 3\<rparr>)"
    unfolding d by (simp add: mem_foreman_def mem_create_def store_with_def)
  from ensure_creates_missing [OF h1 h2 h3 h4 h5 h6] h1 h2 h3 h5 h7 d
  show ?thesis by (simp add: dict_get_def prelude_def location_lookups_def location_names_def
        layout_reads_def freebsd_def truthy_str_def)
qed

subsection \<open>C5: state absent\<close>

text \<open>
  Claim C5 speaks of every descriptor with state absent. The module checks \<open>layout\<close> and
  \<open>template_file\<close>, reads the file and resolves the locations whatever the state, so the
  claim holds for the valid descriptors: for a valid descriptor with state absent whose
  locations resolve and whose layout resolves, when the search by name finds a record the
  module deletes it by its id and, when the delete answers, returns changed with that
  answer; when the search finds nothing the module issues no further call, leaves the
  remote state as it is and returns unchanged with the answer of the search (\<open>None\<close>).
\<close>

theorem ensure_absent_valid:
  assumes "state p = Absent"
    and "valid p" and "desired_layout fs p = Some L"
    and "\<forall>l\<in>set (location_names p). resolves c s l"
    and "search_partition_table c (name_data p) s = Inr pt"
  shows "ensure c fs p s =
           (case pt of
              None \<Rightarrow> (Inr (False, None), prelude p, s)
            | Some d \<Rightarrow>
                if d = [] then (Inr (False, Some d), prelude p, s)
                else
                  (case delete_partition_table c (dict_get d ''id'') s of
                     (x, s') \<Rightarrow>
                       (case x of
                          Inl e \<Rightarrow> Inl (FailJson (''Could not delete partition table: '' @ e))
                        | Inr u \<Rightarrow> Inr (True, Some u),
                        prelude p @ [DeletePartitionTable (dict_get d ''id'')], s')))"
proof -
  obtain r t4 s' where act: "ensure_action c p pt (desired_data c s p L) s = (r, t4, s')"
    by (cases "ensure_action c p pt (desired_data c s p L) s") auto
  note run = ensure_prepared [OF assms(2,3,4,5) act]
  from act assms(1) show ?thesis
    unfolding run
    by (auto simp: ensure_action_def truthy_dict_def split: if_splits prod.splits sum.splits option.splits)
qed

text \<open>
  Claim C5 as stated fails: the descriptor with a name and state absent only is not
  valid; the run fails and the stored record is not deleted.
\<close>

theorem absent_without_layout_fails:
  "state freebsd_absent = Absent
   \<and> search_partition_table mem_foreman (name_data freebsd_absent)
         (store_with [stored_freebsd (PStr ''zfs on root'')]) =
       Inr (Some (stored_freebsd (PStr ''zfs on root'')))
   \<and> ensure mem_foreman example_fs freebsd_absent
         (store_with [stored_freebsd (PStr ''zfs on root'')]) =
       (Inl (FailJson ''Either layout or template_file must be defined''),
        [SearchPartitionTable [(''name'', PStr ''FreeBSD'')]],
        store_with [stored_freebsd (PStr ''zfs on root'')])"
  by (simp add: run_defs)

theorem ensure_absent_valid_witness:
  "state freebsd_removed = Absent \<and> valid freebsd_removed
   \<and> desired_layout example_fs freebsd_removed = Some ''zfs on root''
   \<and> search_partition_table mem_foreman (name_data freebsd_removed)
         (store_with [stored_freebsd (PStr ''zfs on root'')]) =
       Inr (Some (stored_freebsd (PStr ''zfs on root'')))
   \<and> ensure mem_foreman example_fs freebsd_removed
         (store_with [stored_freebsd (PStr ''zfs on root'')]) =
       (Inr (True, Some (stored_freebsd (PStr ''zfs on root''))),
        [SearchPartitionTable [(''name'', PStr ''FreeBSD'')], DeletePartitionTable (PInt 1)],
        store_with [])"
proof -
  have h1: "state freebsd_removed = Absent" by (simp add: freebsd_removed_def)
  have h2: "valid freebsd_removed"
    by (simp add: valid_def freebsd_removed_def freebsd_def truthy_str_def)
  have h3: "desired_layout example_fs freebsd_removed = Some ''zfs on root''"
    by (simp add: desired_layout_def freebsd_removed_def freebsd_def truthy_str_def)
  have h4: "\<forall>l\<in>set (location_names freebsd_removed).
              resolves mem_foreman (store_with [stored_freebsd (PStr ''zfs on root'')]) l"
    by (simp add: location_names_def freebsd_removed_def freebsd_def)
  have h5: "search_partition_table mem_foreman (name_data freebsd_removed)
              (store_with [stored_freebsd (PStr ''zfs on root'')]) =
            Inr (Some (stored_freebsd (PStr ''zfs on root'')))"
    by (simp add: mem_foreman_def store_with_def stored_freebsd_def by_name_def dict_get_def
          freebsd_removed_def freebsd_def)
  from ensure_absent_valid [OF h1 h2 h3 h4 h5] h1 h2 h3 h5
  show ?thesis
    by (simp add: prelude_def location_lookups_def location_names_def layout_reads_def run_defs)
qed

subsection \<open>C6: the order of the calls\<close>

text \<open>
  Claim C6 gives the order layout, locations, search by name, decision. The module works
  in another fixed order, and the claim holds in this form: every run starts with the
  search by name, then looks the location names up in the order of the list, then reads
  the template file when the layout comes from it, and only afterwards fetches, creates,
  updates or deletes; a later stage starts only when every lookup has been issued.
\<close>

theorem ensure_call_order:
  assumes "ensure c fs p s = (r, tr, s')"
  shows "\<exists>k t3 t4. tr = SearchPartitionTable (name_data p) # take k (location_lookups p) @ t3 @ t4
           \<and> (t3 = [] \<or> t3 = layout_reads p)
           \<and> (t3 @ t4 \<noteq> [] \<longrightarrow> take k (location_lookups p) = location_lookups p)
           \<and> (t4 \<noteq> [] \<longrightarrow> t3 = layout_reads p)
           \<and> (\<forall>e\<in>set t4. phase e = 3)
           \<and> sorted (map phase tr)"
  using ensure_shape [OF assms]
proof (elim disjE exE conjE)
  fix f k t3
  assume tr: "tr = SearchPartitionTable (name_data p) # take k (location_lookups p) @ t3"
    and t3: "t3 \<noteq> [] \<longrightarrow> take k (location_lookups p) = location_lookups p \<and> t3 = layout_reads p"
  have "sorted (map phase (take k (location_lookups p)))"
    by (rule sorted_const [of _ 1]) (use take_lookups_phase in auto)
  with tr t3 take_lookups_phase [of k p]
  have "sorted (map phase tr)"
    by (cases "t3 = []") (auto simp: sorted_append layout_reads_def split: option.splits if_splits)
  with tr t3 have "tr = SearchPartitionTable (name_data p) # take k (location_lookups p) @ t3 @ []
      \<and> (t3 = [] \<or> t3 = layout_reads p)
      \<and> (t3 @ [] \<noteq> [] \<longrightarrow> take k (location_lookups p) = location_lookups p)
      \<and> ([] \<noteq> [] \<longrightarrow> t3 = layout_reads p)
      \<and> (\<forall>e\<in>set []. phase e = 3)
      \<and> sorted (map phase tr)"
    by auto
  then show ?thesis by blast
next
  fix pt L t4
  assume act: "ensure_action c p pt (desired_data c s p L) s = (r, t4, s')"
    and tr: "tr = prelude p @ t4"
  note ph = ensure_action_phase [OF act]
  have "sorted (map phase t4)"
    by (rule sorted_const [of _ 3]) (use ph in auto)
  with prelude_phases [of p] ph tr have "sorted (map phase tr)"
    by (fastforce simp: sorted_append)
  with tr ph have "tr = SearchPartitionTable (name_data p) #
        take (length (location_lookups p)) (location_lookups p) @ layout_reads p @ t4
      \<and> (layout_reads p = [] \<or> layout_reads p = layout_reads p)
      \<and> (layout_reads p @ t4 \<noteq> [] \<longrightarrow>
           take (length (location_lookups p)) (location_lookups p) = location_lookups p)
      \<and> (t4 \<noteq> [] \<longrightarrow> layout_reads p = layout_reads p)
      \<and> (\<forall>e\<in>set t4. phase e = 3)
      \<and> sorted (map phase tr)"
    by (simp add: prelude_def)
  then show ?thesis by blast
qed

text \<open>
  Claim C6 as stated fails: in this run the search by name is the first call and the read
  of the template file comes after the location lookup.
\<close>

theorem search_precedes_layout:
  "ensure mem_foreman example_fs freebsd_located (store_with []) =
     (Inr (True, Some [(''name'', PStr ''FreeBSD''), (''location_ids'', PList [PInt 7]),
                       (''layout'', PStr ''zfs on root''), (''os_family'', PStr ''FreeBSD''),
                       (''id'', PInt 2)]),
      [SearchPartitionTable [(''name'', PStr ''FreeBSD'')],
       SearchLocation [(''name'', PStr ''Dulles'')],
       OpenFile ''ptable.txt'',
       CreatePartitionTable [(''name'', PStr ''FreeBSD''), (''location_ids'', PList [PInt 7]),
                             (''layout'', PStr ''zfs on root''),
                             (''os_family'', PStr ''FreeBSD'')]],
      \<lparr>partition_tables = [[(''name'', PStr ''FreeBSD''), (''location_ids'', PList [PInt 7]),
                             (''layout'', PStr ''zfs on root''),
                             (''os_family'', PStr ''FreeBSD''), (''id'', PInt 2)]],
       location_records = [[(''id'', PInt 7), (''name'', PStr ''Dulles'')]],
       next_id = 3\<rparr>)"
  by (simp add: run_defs)

theorem ensure_call_order_witness:
  "\<exists>r tr s'. ensure mem_foreman example_fs freebsd_located (store_with []) = (r, tr, s')
     \<and> (\<exists>k t3 t4.
           tr = SearchPartitionTable (name_data freebsd_located) #
                  take k (location_lookups freebsd_located) @ t3 @ t4
           \<and> (t3 = [] \<or> t3 = layout_reads freebsd_located)
           \<and> (t3 @ t4 \<noteq> [] \<longrightarrow>
                 take k (location_lookups freebsd_located) = location_lookups freebsd_located)
           \<and> (t4 \<noteq> [] \<longrightarrow> t3 = layout_reads freebsd_located)
           \<and> (\<forall>e\<in>set t4. phase e = 3)
           \<and> sorted (map phase tr))
     \<and> map phase tr = [0, 1, 2, 3]"
  by (rule run_exI [OF run_located]) (rule conjI, rule ensure_call_order [OF run_located], simp)

subsection \<open>C7: a location that does not resolve\<close>

text \<open>
  Claim C7 says that a run with a location name that the client cannot resolve fails
  before any create, update or delete, with a message that names the first such location.
  The module formats that message (line 98) but hands it to \<open>module.fail_json\<close> as a
  positional argument, where every call of \<open>ensure\<close> passes \<open>msg=\<close>. The run below,
  with the locations \<open>Dulles\<close>, which resolves, and \<open>Nowhere\<close>, which does not, ends
  after the two lookups in an uncaught \<open>TypeError\<close>: no create, update or delete is
  issued, and no message names \<open>Nowhere\<close>.
\<close>

theorem unresolved_location_type_error:
  "locations freebsd_nowhere = Some [''Dulles'', ''Nowhere'']
   \<and> resolves mem_foreman (store_with []) ''Dulles''
   \<and> search_location mem_foreman [(''name'', PStr ''Nowhere'')] (store_with []) = Inr None
   \<and> ensure mem_foreman example_fs freebsd_nowhere (store_with []) =
       (Inl (Uncaught ''TypeError: fail_json() takes exactly 1 argument (2 given)''),
        [SearchPartitionTable [(''name'', PStr ''FreeBSD'')],
         SearchLocation [(''name'', PStr ''Dulles'')],
         SearchLocation [(''name'', PStr ''Nowhere'')]],
        store_with [])"
  by (simp add: run_defs resolves_def)

text \<open>
  The same for every client: when the lookup of a name in \<open>locations\<close> answers no
  record, the run fails, leaves the remote state as it is and issues nothing but the search
  by name and location lookups; when the search by name answers and every name before
  this one resolves, the run ends in the positional call of line 98.
\<close>

lemma unresolved_location_run:
  assumes "l \<in> set (location_names p)"
    and "search_location c [(''name'', PStr l)] s = Inr x" and "\<not> truthy_dict x"
  shows "\<exists>f tr. ensure c fs p s = (Inl f, tr, s)
           \<and> (\<forall>e\<in>set tr. phase e \<le> 1)
           \<and> (\<forall>pre post pt. location_names p = pre @ l # post
                  \<and> (\<forall>y\<in>set pre. resolves c s y)
                  \<and> search_partition_table c (name_data p) s = Inr pt
                \<longrightarrow> f = fail_json_positional (''Could not find Location '' @ l))"
proof (cases "search_partition_table c (name_data p) s")
  case (Inl e)
  then show ?thesis by (simp add: ensure_def)
next
  case (Inr pt)
  from assms(2,3) have nr: "\<not> resolves c s l" by (simp add: resolves_def)
  from location_data_unresolved [OF assms(1) nr, of "name_data p"]
  obtain f t2 where ld: "location_data c s p (name_data p) = (Inl f, t2)" by blast
  note ph = location_data_searches [OF ld]
  have run: "ensure c fs p s = (Inl f, SearchPartitionTable (name_data p) # t2, s)"
    using Inr ld by (simp add: ensure_def)
  have "f = fail_json_positional (''Could not find Location '' @ l)"
    if sp: "location_names p = pre @ l # post" and pre: "\<forall>y\<in>set pre. resolves c s y"
    for pre post
  proof -
    from sp have loc: "locations p = Some (pre @ l # post)"
      by (cases "locations p") (auto simp: location_names_def)
    from get_location_ids_first_miss [OF pre assms(2,3), of post "[]"] loc ld
    show ?thesis by (simp add: location_data_def)
  qed
  with run ph show ?thesis by auto
qed

subsection \<open>C8: at most one call that changes the remote state\<close>

text \<open>
  Claim C8 says that every run either completes exactly one create, update or delete or
  fails before any such call. A run may also succeed without any such call, and it may
  fail in the call itself. The claim holds in this form: every run issues at most one
  create, update or delete, and it is the last call of the run; a run that issues none
  leaves the remote state as it is, which covers every failure before that call; a run
  that returns unchanged has issued none; a run that returns changed has issued exactly
  one, as its last call.
\<close>

theorem ensure_single_mutation:
  assumes "ensure c fs p s = (r, tr, s')"
  shows "length (filter mutating tr) \<le> 1
         \<and> (\<forall>e\<in>set (butlast tr). \<not> mutating e)
         \<and> (filter mutating tr = [] \<longrightarrow> s' = s)
         \<and> (\<forall>res. r = Inr (False, res) \<longrightarrow> filter mutating tr = [])
         \<and> (\<forall>res. r = Inr (True, res) \<longrightarrow> (\<exists>e. filter mutating tr = [e] \<and> last tr = e))"
  using ensure_shape [OF assms]
proof (elim disjE exE conjE)
  fix f k t3
  assume r: "r = Inl f" and s: "s' = s"
    and tr: "tr = SearchPartitionTable (name_data p) # take k (location_lookups p) @ t3"
    and t3: "t3 \<noteq> [] \<longrightarrow> take k (location_lookups p) = location_lookups p \<and> t3 = layout_reads p"
  from tr t3 take_lookups_phase [of k p] have "\<forall>e\<in>set tr. phase e < 3"
    by (cases "t3 = []") (auto simp: layout_reads_def split: option.splits if_splits)
  then have none: "\<forall>e\<in>set tr. \<not> mutating e"
    using mutating_reads [of tr] by (simp add: filter_empty_conv)
  then have "\<forall>e\<in>set (butlast tr). \<not> mutating e" by (meson in_set_butlastD)
  with none r s show ?thesis by (simp add: filter_empty_conv)
next
  fix pt L t4
  assume act: "ensure_action c p pt (desired_data c s p L) s = (r, t4, s')"
    and tr: "tr = prelude p @ t4"
  note m = ensure_action_mutations [OF act]
  have pre: "\<forall>e\<in>set (prelude p). \<not> mutating e"
    using prelude_not_mutating [of p] by (simp add: filter_empty_conv)
  have f: "filter mutating tr = filter mutating t4"
    using tr prelude_not_mutating [of p] by simp
  have b: "\<forall>e\<in>set (butlast tr). \<not> mutating e"
  proof (cases "t4 = []")
    case True
    with tr pre show ?thesis by (auto dest: in_set_butlastD)
  next
    case False
    with tr have "butlast tr = prelude p @ butlast t4" by (simp add: butlast_append)
    with pre m show ?thesis by auto
  qed
  have l: "last tr = last t4" if "filter mutating t4 \<noteq> []"
  proof -
    from that have "t4 \<noteq> []" by auto
    with tr show ?thesis by simp
  qed
  from m f b l show ?thesis by auto
qed

text \<open>
  Claim C8 as stated fails: this run neither fails nor completes a create, update or
  delete.
\<close>

theorem run_without_mutation_succeeds:
  "ensure mem_foreman example_fs freebsd_removed (store_with []) =
     (Inr (False, None), [SearchPartitionTable [(''name'', PStr ''FreeBSD'')]], store_with [])
   \<and> filter mutating [SearchPartitionTable [(''name'', PStr ''FreeBSD'')]] = []"
  by (simp add: run_defs)

theorem ensure_single_mutation_witness:
  "\<exists>res tr s'.
     ensure mem_foreman example_fs freebsd (store_with [stored_freebsd (PStr ''ufs'')]) =
       (Inr (True, res), tr, s')
     \<and> length (filter mutating tr) \<le> 1
     \<and> (\<forall>e\<in>set (butlast tr). \<not> mutating e)
     \<and> (\<exists>e. filter mutating tr = [e] \<and> last tr = e)"
proof -
  from ensure_single_mutation [OF run_update] run_update show ?thesis by blast
qed

subsection \<open>C9: no locations, no location_ids\<close>

text \<open>
  Claim C9: when \<open>locations\<close> is omitted or is the empty list, no data handed to create
  or update has a \<open>location_ids\<close> entry, and the run issues no location lookup.
\<close>

theorem ensure_without_locations:
  assumes "\<not> truthy_list (locations p)"
    and "ensure c fs p s = (r, tr, s')"
  shows "(\<forall>d\<in>set (payloads tr). ''location_ids'' \<notin> fst ` set d)
         \<and> (\<forall>e\<in>set tr. phase e \<noteq> 1)"
  using ensure_shape [OF assms(2)]
proof (elim disjE exE conjE)
  fix f k t3
  assume tr: "tr = SearchPartitionTable (name_data p) # take k (location_lookups p) @ t3"
    and t3: "t3 \<noteq> [] \<longrightarrow> take k (location_lookups p) = location_lookups p \<and> t3 = layout_reads p"
  from assms(1) have nl: "location_lookups p = []"
    by (auto simp: truthy_list_def location_lookups_def location_names_def split: option.splits)
  from tr t3 nl have ph: "\<forall>e\<in>set tr. phase e < 3 \<and> phase e \<noteq> 1"
    by (cases "t3 = []") (auto simp: layout_reads_def split: option.splits if_splits)
  then have "payloads tr = []" using payloads_reads [of tr] by simp
  with ph show ?thesis by simp
next
  fix pt L t4
  assume act: "ensure_action c p pt (desired_data c s p L) s = (r, t4, s')"
    and tr: "tr = prelude p @ t4"
  from assms(1) have nl: "location_lookups p = []"
    by (auto simp: truthy_list_def location_lookups_def location_names_def split: option.splits)
  have "payloads (prelude p) = []"
    using payloads_reads [of "prelude p"] prelude_phases [of p] by simp
  with tr have "payloads tr = payloads t4" by (simp add: payloads_append)
  with ensure_action_payloads [OF act]
  have "\<forall>d\<in>set (payloads tr). d = desired_data c s p L" by simp
  moreover from assms(1) have "''location_ids'' \<notin> fst ` set (desired_data c s p L)"
    by (simp add: desired_data_def)
  moreover from tr nl ensure_action_phase [OF act] have "\<forall>e\<in>set tr. phase e \<noteq> 1"
    by (auto simp: prelude_def layout_reads_def split: option.splits if_splits)
  ultimately show ?thesis by auto
qed

theorem ensure_without_locations_witness:
  "\<not> truthy_list (locations freebsd)
   \<and> (\<exists>r tr s'. ensure mem_foreman example_fs freebsd (store_with []) = (r, tr, s')
        \<and> (\<forall>d\<in>set (payloads tr). ''location_ids'' \<notin> fst ` set d)
        \<and> (\<forall>e\<in>set tr. phase e \<noteq> 1)
        \<and> payloads tr = [[(''name'', PStr ''FreeBSD''), (''layout'', PStr ''zfs on root''),
                           (''os_family'', PStr ''FreeBSD'')]])"
proof -
  have h: "\<not> truthy_list (locations freebsd)" by (simp add: truthy_list_def freebsd_def)
  from ensure_without_locations [OF h run_create] h run_create show ?thesis
    by (simp add: payloads_def List.map_filter_simps)
qed

subsection \<open>C10: os_family in the data\<close>

text \<open>
  Claim C10: every data handed to create or update has an \<open>os_family\<close> entry equal to
  the \<open>os_family\<close> parameter (\<open>None\<close> when it was omitted), also in an update that a
  layout difference alone has triggered; and when the fetched record already has the
  resolved desired layout, no update is issued whatever its \<open>os_family\<close>. In the witness
  below the update overwrites the stored \<open>os_family\<close>.
\<close>

theorem ensure_sends_os_family:
  assumes "ensure c fs p s = (r, tr, s')"
  shows "(\<forall>d\<in>set (payloads tr). map_of d ''os_family'' = Some (opt_str (os_family p)))
         \<and> (\<forall>d g L. search_partition_table c (name_data p) s = Inr (Some d)
                \<and> get_partition_table c (dict_get d ''id'') s = Inr g
                \<and> desired_layout fs p = Some L \<and> dict_get g ''layout'' = PStr L
              \<longrightarrow> (\<forall>e\<in>set tr. \<not> is_update e))"
  using ensure_shape [OF assms]
proof (elim disjE exE conjE)
  fix f k t3
  assume tr: "tr = SearchPartitionTable (name_data p) # take k (location_lookups p) @ t3"
    and t3: "t3 \<noteq> [] \<longrightarrow> take k (location_lookups p) = location_lookups p \<and> t3 = layout_reads p"
  from tr t3 take_lookups_phase [of k p] have ph: "\<forall>e\<in>set tr. phase e < 3"
    by (cases "t3 = []") (auto simp: layout_reads_def split: option.splits if_splits)
  then have "payloads tr = []" by (rule payloads_reads)
  moreover have "\<not> is_update e" if "e \<in> set tr" for e
    using ph that by (cases e) auto
  ultimately show ?thesis by simp
next
  fix pt L t4
  assume L: "desired_layout fs p = Some L"
    and sp: "search_partition_table c (name_data p) s = Inr pt"
    and act: "ensure_action c p pt (desired_data c s p L) s = (r, t4, s')"
    and tr: "tr = prelude p @ t4"
  have "payloads (prelude p) = []"
    using payloads_reads [of "prelude p"] prelude_phases [of p] by simp
  with tr have "payloads tr = payloads t4" by (simp add: payloads_append)
  with ensure_action_payloads [OF act]
  have "\<forall>d\<in>set (payloads tr). d = desired_data c s p L" by simp
  moreover have "map_of (desired_data c s p L) ''os_family'' = Some (opt_str (os_family p))"
    by (simp add: desired_data_def)
  ultimately have one: "\<forall>d\<in>set (payloads tr). map_of d ''os_family'' = Some (opt_str (os_family p))"
    by auto
  have pre: "\<not> is_update e" if "e \<in> set (prelude p)" for e
    using prelude_phases [of p] that by (cases e) auto
  have lay: "dict_get (desired_data c s p L) ''layout'' = PStr L"
    by (simp add: desired_data_def dict_get_def)
  have two: "\<forall>e\<in>set tr. \<not> is_update e"
    if "pt = Some d" "get_partition_table c (dict_get d ''id'') s = Inr g"
      "dict_get g ''layout'' = PStr L" for d g
    using ensure_action_cases [OF act] that lay tr pre by auto
  from one two sp L show ?thesis by auto
qed

theorem ensure_sends_os_family_witness:
  "\<exists>r tr s'.
     ensure mem_foreman example_fs freebsd (store_with [stored_freebsd (PStr ''ufs'')]) =
       (r, tr, s')
     \<and> (\<forall>d\<in>set (payloads tr). map_of d ''os_family'' = Some (opt_str (os_family freebsd)))
     \<and> payloads tr = [[(''name'', PStr ''FreeBSD''), (''layout'', PStr ''zfs on root''),
                        (''os_family'', PStr ''FreeBSD'')]]
     \<and> dict_get (stored_freebsd (PStr ''ufs'')) ''os_family'' = PStr ''Solaris''
     \<and> map (\<lambda>x. dict_get x ''os_family'') (partition_tables s') = [PStr ''FreeBSD'']"
proof -
  from ensure_sends_os_family [OF run_update] run_update show ?thesis
    by (simp add: payloads_def List.map_filter_simps store_with_def stored_freebsd_def
          dict_get_def)
qed

end
